theory Spec2Isabelle
  imports Complex_Main
begin

section \<open>Exceptions\<close>

text \<open>
  The module \<open>flight_tools.py\<close> raises nothing itself. What its arithmetic can raise is
  Python's \<open>ZeroDivisionError\<close> (a float division by zero) and \<open>OverflowError\<close> (a float
  power whose result is out of range); float addition, subtraction and multiplication
  never raise: they return an infinity or a NaN.
\<close>

datatype error = ZeroDivisionError | OverflowError

text \<open>Sequencing of two computations that may raise: the first exception wins.\<close>

definition bind_res :: "error + 'a \<Rightarrow> ('a \<Rightarrow> error + 'b) \<Rightarrow> error + 'b" where
  "bind_res m f = (case m of Inl e \<Rightarrow> Inl e | Inr x \<Rightarrow> f x)"

section \<open>Python floats\<close>

text \<open>
  A Python float is an IEEE 754 binary64 number: a finite value, an infinity or a NaN.
  A finite value is kept as the real number it denotes; the two zeros are not
  distinguished (no operation of the module tells them apart: a division by either zero
  raises, and they compare equal).
\<close>

datatype double = Finite real | PosInf | NegInf | NaN

subsection \<open>Rounding to nearest, ties to even\<close>

text \<open>The integer nearest to a real; a tie goes to the even one.\<close>

definition round_half_even :: "real \<Rightarrow> int" where
  "round_half_even y =
     (if y - of_int \<lfloor>y\<rfloor> < 1 / 2 then \<lfloor>y\<rfloor>
      else if 1 / 2 < y - of_int \<lfloor>y\<rfloor> then \<lfloor>y\<rfloor> + 1
      else if even \<lfloor>y\<rfloor> then \<lfloor>y\<rfloor> else \<lfloor>y\<rfloor> + 1)"

text \<open>
  The binary exponent of a real, not below the exponent -1022 of the subnormal numbers,
  and the spacing of the binary64 numbers at that exponent (53 significant bits).
\<close>

definition exponent :: "real \<Rightarrow> int" where
  "exponent x = max (- 1022) \<lfloor>log 2 \<bar>x\<bar>\<rfloor>"

definition ulp :: "real \<Rightarrow> real" where
  "ulp x = 2 powi (exponent x - 52)"

definition nearest :: "real \<Rightarrow> real" where
  "nearest x = ulp x * of_int (round_half_even (x / ulp x))"

text \<open>
  The result of an operation whose exact value is \<open>x\<close>: the nearest binary64 number, or
  an infinity once that reaches \<open>2 ^ 1024\<close>.
\<close>

definition rnd :: "real \<Rightarrow> double" where
  "rnd x =
     (if 2 ^ 1024 \<le> nearest x then PosInf
      else if nearest x \<le> - (2 ^ 1024) then NegInf
      else Finite (nearest x))"

text \<open>A value is a binary64 number when rounding leaves it as it is.\<close>

fun is_double :: "double \<Rightarrow> bool" where
  "is_double (Finite x) = (rnd x = Finite x)"
| "is_double PosInf = True"
| "is_double NegInf = True"
| "is_double NaN = True"

text \<open>A decimal literal of the source denotes the binary64 number nearest to it.\<close>

definition literal :: "real \<Rightarrow> double" where
  "literal x = rnd x"

subsection \<open>Arithmetic and comparison\<close>

fun fneg :: "double \<Rightarrow> double" where
  "fneg (Finite x) = Finite (- x)"
| "fneg PosInf = NegInf"
| "fneg NegInf = PosInf"
| "fneg NaN = NaN"

text \<open>\<open>abs(x)\<close>.\<close>

fun fabs :: "double \<Rightarrow> double" where
  "fabs (Finite x) = Finite \<bar>x\<bar>"
| "fabs PosInf = PosInf"
| "fabs NegInf = PosInf"
| "fabs NaN = NaN"

text \<open>\<open>x + y\<close>.\<close>

fun fadd :: "double \<Rightarrow> double \<Rightarrow> double" where
  "fadd (Finite x) (Finite y) = rnd (x + y)"
| "fadd NaN y = NaN"
| "fadd x NaN = NaN"
| "fadd PosInf NegInf = NaN"
| "fadd NegInf PosInf = NaN"
| "fadd PosInf y = PosInf"
| "fadd NegInf y = NegInf"
| "fadd x PosInf = PosInf"
| "fadd x NegInf = NegInf"

text \<open>\<open>x - y\<close>.\<close>

definition fsub :: "double \<Rightarrow> double \<Rightarrow> double" where
  "fsub x y = fadd x (fneg y)"

text \<open>\<open>x * y\<close>.\<close>

fun fmul :: "double \<Rightarrow> double \<Rightarrow> double" where
  "fmul (Finite x) (Finite y) = rnd (x * y)"
| "fmul NaN y = NaN"
| "fmul x NaN = NaN"
| "fmul (Finite x) PosInf = (if x = 0 then NaN else if 0 < x then PosInf else NegInf)"
| "fmul (Finite x) NegInf = (if x = 0 then NaN else if 0 < x then NegInf else PosInf)"
| "fmul PosInf (Finite y) = (if y = 0 then NaN else if 0 < y then PosInf else NegInf)"
| "fmul NegInf (Finite y) = (if y = 0 then NaN else if 0 < y then NegInf else PosInf)"
| "fmul PosInf PosInf = PosInf"
| "fmul PosInf NegInf = NegInf"
| "fmul NegInf PosInf = NegInf"
| "fmul NegInf NegInf = PosInf"

text \<open>The quotient of \<open>x / y\<close> for a divisor that is not zero.\<close>

fun fdiv :: "double \<Rightarrow> double \<Rightarrow> double" where
  "fdiv (Finite x) (Finite y) = rnd (x / y)"
| "fdiv NaN y = NaN"
| "fdiv x NaN = NaN"
| "fdiv (Finite x) PosInf = Finite 0"
| "fdiv (Finite x) NegInf = Finite 0"
| "fdiv PosInf (Finite y) = (if y < 0 then NegInf else PosInf)"
| "fdiv NegInf (Finite y) = (if y < 0 then PosInf else NegInf)"
| "fdiv PosInf PosInf = NaN"
| "fdiv PosInf NegInf = NaN"
| "fdiv NegInf PosInf = NaN"
| "fdiv NegInf NegInf = NaN"

text \<open>\<open>x / y\<close>: Python tests the divisor first and raises when it is zero.\<close>

definition truediv_f64 :: "double \<Rightarrow> double \<Rightarrow> error + double" where
  "truediv_f64 x y = (if y = Finite 0 then Inl ZeroDivisionError else Inr (fdiv x y))"

text \<open>\<open>x < y\<close> and \<open>x <= y\<close>: false when an operand is a NaN.\<close>

fun flt :: "double \<Rightarrow> double \<Rightarrow> bool" where
  "flt (Finite x) (Finite y) = (x < y)"
| "flt NaN y = False"
| "flt x NaN = False"
| "flt PosInf y = False"
| "flt x NegInf = False"
| "flt NegInf y = True"
| "flt x PosInf = True"

fun fle :: "double \<Rightarrow> double \<Rightarrow> bool" where
  "fle (Finite x) (Finite y) = (x \<le> y)"
| "fle NaN y = False"
| "fle x NaN = False"
| "fle NegInf y = True"
| "fle x PosInf = True"
| "fle PosInf y = False"
| "fle x NegInf = False"

text \<open>
  An exact value whose rounding commutes with a multiplication by four: zero, or a value
  in the normal range with room for the factor.
\<close>

definition scalable :: "real \<Rightarrow> bool" where
  "scalable y = (y = 0 \<or> (2 powi (- 1022) \<le> \<bar>y\<bar> \<and> \<bar>y\<bar> < 2 powi 1021))"

subsection \<open>The power \<open>x ** y\<close>\<close>

text \<open>
  What \<open>**\<close> returns: a float, or a complex number (a negative base with an exponent
  that is not integral). The complex value is not needed below and not modelled.
\<close>

datatype number = PyFloat double | PyComplex

definition odd_integer :: "real \<Rightarrow> bool" where
  "odd_integer y = (y = of_int \<lfloor>y\<rfloor> \<and> odd \<lfloor>y\<rfloor>)"

text \<open>
  \<open>x ** y\<close> on floats, in the order of the tests of CPython's \<open>float_pow\<close>: a zero exponent;
  a NaN base; a NaN exponent; an infinite exponent; an infinite base; a zero base, which
  raises for a negative exponent; a negative base, complex unless the exponent is
  integral; a base of absolute value 1; at last the power of the C library on the
  absolute value, whose overflow is raised as \<open>OverflowError\<close>. The C library's \<open>pow\<close> is
  not correctly rounded on every platform, so it is the parameter \<open>libm_pow\<close>: for a
  finite base greater than 0 and a finite exponent it gives the float the library
  returns.
\<close>

definition float_pow :: "(real \<Rightarrow> real \<Rightarrow> double) \<Rightarrow> double \<Rightarrow> double \<Rightarrow> error + number" where
  "float_pow libm_pow v w =
     (if w = Finite 0 then Inr (PyFloat (Finite 1))
      else if v = NaN then Inr (PyFloat NaN)
      else if w = NaN then Inr (PyFloat (if v = Finite 1 then Finite 1 else NaN))
      else if w = PosInf \<or> w = NegInf then
        (if fabs v = Finite 1 then Inr (PyFloat (Finite 1))
         else if (w = PosInf) = flt (Finite 1) (fabs v) then Inr (PyFloat PosInf)
         else Inr (PyFloat (Finite 0)))
      else case w of
        Finite y \<Rightarrow>
          (case v of
            PosInf \<Rightarrow> Inr (PyFloat (if 0 < y then PosInf else Finite 0))
          | NegInf \<Rightarrow>
              Inr (PyFloat (if 0 < y then (if odd_integer y then NegInf else PosInf)
                            else Finite 0))
          | Finite x \<Rightarrow>
              if x = 0 then (if y < 0 then Inl ZeroDivisionError else Inr (PyFloat (Finite 0)))
              else if x < 0 \<and> y \<noteq> of_int \<lfloor>y\<rfloor> then Inr PyComplex
              else if \<bar>x\<bar> = 1 then
                Inr (PyFloat (Finite (if x < 0 \<and> odd_integer y then - 1 else 1)))
              else
                (case libm_pow \<bar>x\<bar> y of
                  Finite r \<Rightarrow>
                    Inr (PyFloat (Finite (if x < 0 \<and> odd_integer y then - r else r)))
                | NaN \<Rightarrow> Inr (PyFloat NaN)
                | _ \<Rightarrow> Inl OverflowError)
          | NaN \<Rightarrow> Inr (PyFloat NaN))
      | _ \<Rightarrow> Inr (PyFloat NaN))"

text \<open>
  \<open>x ** 2\<close>: the exponent is integral, so the result is a float (lemma
  \<open>square_Finite\<close>) and the last case below does not arise.
\<close>

definition square :: "(real \<Rightarrow> real \<Rightarrow> double) \<Rightarrow> double \<Rightarrow> error + double" where
  "square libm_pow v =
     (case float_pow libm_pow v (Finite 2) of
        Inl e \<Rightarrow> Inl e
      | Inr (PyFloat s) \<Rightarrow> Inr s
      | Inr PyComplex \<Rightarrow> Inr NaN)"

text \<open>
  One function the parameter can be: the correctly rounded power. It is used to run the
  methods on inputs where every C library agrees with it (the exact power is a binary64
  number, or far out of range).
\<close>

definition exact_pow :: "real \<Rightarrow> real \<Rightarrow> double" where
  "exact_pow x y = rnd (x powr y)"

text \<open>What the statements below ask of the C library: a power of a positive base is not negative.\<close>

definition nonneg_pow :: "(real \<Rightarrow> real \<Rightarrow> double) \<Rightarrow> bool" where
  "nonneg_pow libm_pow = (\<forall>x y. 0 < x \<longrightarrow> fle (Finite 0) (libm_pow x y))"

section \<open>The class \<open>flight_tools\<close>\<close>

subsection \<open>Constants\<close>

definition R :: double where
  "R = literal 8.31447"

definition airMolecularMass :: double where
  "airMolecularMass = literal 0.02896"

definition HeMolecularMass :: double where
  "HeMolecularMass = literal 0.004002602"

definition HydrogenMolecularMass :: double where
  "HydrogenMolecularMass = literal 0.0020159"

text \<open>\<open>math.pi\<close>, the binary64 number 3.141592653589793.\<close>

definition pi_f64 :: double where
  "pi_f64 = Finite (884279719003555 / 281474976710656)"

subsection \<open>Calibration attributes\<close>

text \<open>
  The attributes a flight sets on the object before it asks for a drag. The class gives
  each of them the value 0 (\<open>parachuteAref\<close> the integer 0, which the float operations
  convert to the float 0).
\<close>

record flight_tools_f64 =
  highCD_f64 :: double
  lowCD_f64 :: double
  transition_f64 :: double
  ReBand_f64 :: double
  parachuteAref_f64 :: double
  parachuteCD_f64 :: double

definition class_defaults_f64 :: flight_tools_f64 where
  "class_defaults_f64 =
     \<lparr>highCD_f64 = Finite 0, lowCD_f64 = Finite 0, transition_f64 = Finite 0,
      ReBand_f64 = Finite 0, parachuteAref_f64 = Finite 0, parachuteCD_f64 = Finite 0\<rparr>"

subsection \<open>The methods on binary64\<close>

text \<open>
  Each method as it runs on float arguments: every operator is the float operation, in
  the order in which Python evaluates the expression. The integer literals \<open>100\<close> and \<open>4\<close>
  are converted to the floats of the same value.
\<close>

definition liftingGasMass_f64 ::
  "(real \<Rightarrow> real \<Rightarrow> double) \<Rightarrow> double \<Rightarrow> double \<Rightarrow> double \<Rightarrow> double \<Rightarrow> double \<Rightarrow> double \<Rightarrow>
     error + (double \<times> double \<times> number)" where
  "liftingGasMass_f64 libm_pow nozzleLift balloonMass ambientTempC ambientPressMbar
       gasMolecularMass excessPressureCoefficient =
     bind_res (truediv_f64
         (fmul (fmul (fmul excessPressureCoefficient ambientPressMbar) (Finite 100))
            gasMolecularMass)
         (fmul R (fadd ambientTempC (literal 273.15)))) (\<lambda>gasDensity.
     bind_res (truediv_f64
         (fmul (fmul ambientPressMbar (Finite 100)) airMolecularMass)
         (fmul R (fadd ambientTempC (literal 273.15)))) (\<lambda>airDensity.
     bind_res (truediv_f64 (fadd nozzleLift balloonMass) (fsub airDensity gasDensity))
       (\<lambda>balloonVolume.
     let gasMass = fmul balloonVolume gasDensity in
     bind_res (truediv_f64 (fmul (Finite 6) balloonVolume) pi_f64) (\<lambda>base.
     bind_res (truediv_f64 (Finite 1) (Finite 3)) (\<lambda>third.
     bind_res (float_pow libm_pow base third) (\<lambda>balloonDiameter.
     Inr (gasMass, balloonVolume, balloonDiameter)))))))"

text \<open>\<open>float(ventStart)\<close> is the identity on a float.\<close>

definition gasMassForFloat_f64 ::
  "double \<Rightarrow> double \<Rightarrow> double \<Rightarrow> double \<Rightarrow> double \<Rightarrow> error + double" where
  "gasMassForFloat_f64 currentAltitude floatingAltitude gasMassAtInflation
       gasMassAtFloatingAltitude ventStart =
     (if flt currentAltitude (fsub floatingAltitude ventStart) then Inr gasMassAtInflation
      else if flt currentAltitude floatingAltitude then
        bind_res (truediv_f64 (fsub gasMassAtInflation gasMassAtFloatingAltitude) ventStart)
          (\<lambda>slope. Inr (fadd (fmul slope (fsub floatingAltitude currentAltitude))
             gasMassAtFloatingAltitude))
      else Inr gasMassAtFloatingAltitude)"

definition nozzleLiftForFloat_f64 ::
  "double \<Rightarrow> double \<Rightarrow> double \<Rightarrow> double \<Rightarrow> double \<Rightarrow> double \<Rightarrow> double \<Rightarrow> double \<Rightarrow> double" where
  "nozzleLiftForFloat_f64 nozzleLiftAtInflation airDensity gasDensity balloonVolume balloonMass
       currentAltitude floatingAltitude ventStart =
     (if flt currentAltitude (fsub floatingAltitude ventStart) then nozzleLiftAtInflation
      else fsub (fmul (fsub airDensity gasDensity) balloonVolume) balloonMass)"

text \<open>The drag coefficient that \<open>balloonDrag\<close> assigns to its local \<open>balloonCD\<close>.\<close>

definition balloonCD_f64 :: "flight_tools_f64 \<Rightarrow> double \<Rightarrow> error + double" where
  "balloonCD_f64 self reynoldsNumber =
     (if flt reynoldsNumber (fmul (transition_f64 self) (Finite 100000)) then Inr (highCD_f64 self)
      else if flt reynoldsNumber (fmul (fadd (transition_f64 self) (ReBand_f64 self)) (Finite 100000))
      then
        bind_res (truediv_f64 (fsub reynoldsNumber (fmul (transition_f64 self) (Finite 100000)))
                    (fmul (ReBand_f64 self) (Finite 100000)))
          (\<lambda>position.
             Inr (fsub (highCD_f64 self) (fmul (fsub (highCD_f64 self) (lowCD_f64 self)) position)))
      else Inr (lowCD_f64 self))"

definition balloonDrag_f64 ::
  "(real \<Rightarrow> real \<Rightarrow> double) \<Rightarrow> flight_tools_f64 \<Rightarrow> double \<Rightarrow> double \<Rightarrow> double \<Rightarrow> double \<Rightarrow>
     error + double" where
  "balloonDrag_f64 libm_pow self diameter ascentRate density viscosity =
     bind_res (truediv_f64 (fmul (fmul density (fabs ascentRate)) diameter) viscosity)
       (\<lambda>reynoldsNumber.
     bind_res (balloonCD_f64 self reynoldsNumber) (\<lambda>coefficient.
     bind_res (square libm_pow (fabs ascentRate)) (\<lambda>speedSquared.
     bind_res (square libm_pow diameter) (\<lambda>diameterSquared.
     Inr (fmul (fmul (fmul (fmul (literal 0.5) density) speedSquared)
                  (fdiv (fmul pi_f64 diameterSquared) (Finite 4)))
            coefficient)))))"

definition parachuteDrag_f64 ::
  "(real \<Rightarrow> real \<Rightarrow> double) \<Rightarrow> flight_tools_f64 \<Rightarrow> double \<Rightarrow> double \<Rightarrow> error + double" where
  "parachuteDrag_f64 libm_pow self descentRate density =
     bind_res (square libm_pow descentRate) (\<lambda>rateSquared.
     Inr (fmul (fmul (fmul (fmul (literal 0.5) density) rateSquared) (parachuteAref_f64 self))
            (parachuteCD_f64 self)))"

subsection \<open>Three methods read over the reals\<close>

text \<open>
  Continuity of the drag coefficient in the Reynolds number is a statement about the
  formula of \<open>balloonDrag\<close> as a function of a real variable. For it, and for the
  statements on the sign of the ascent rate and on the step of \<open>nozzleLiftForFloat\<close>,
  the same source lines are read with exact real arithmetic: a float is a real, and
  the only exception is the division by zero.
\<close>

text \<open>The calibration attributes as reals.\<close>

record flight_tools =
  highCD :: real
  lowCD :: real
  transition :: real
  ReBand :: real
  parachuteAref :: real
  parachuteCD :: real

definition truediv :: "real \<Rightarrow> real \<Rightarrow> error + real" where
  "truediv x y = (if y = 0 then Inl ZeroDivisionError else Inr (x / y))"

definition nozzleLiftForFloat ::
  "real \<Rightarrow> real \<Rightarrow> real \<Rightarrow> real \<Rightarrow> real \<Rightarrow> real \<Rightarrow> real \<Rightarrow> real \<Rightarrow> real" where
  "nozzleLiftForFloat nozzleLiftAtInflation airDensity gasDensity balloonVolume balloonMass
       currentAltitude floatingAltitude ventStart =
     (if currentAltitude < floatingAltitude - ventStart then nozzleLiftAtInflation
      else (airDensity - gasDensity) * balloonVolume - balloonMass)"

text \<open>
  The drag coefficient that \<open>balloonDrag\<close> assigns to its local \<open>balloonCD\<close> from
  the Reynolds number (the \<open>if\<close>/\<open>elif\<close>/\<open>else\<close> of the method); below, the bound
  variable \<open>coefficient\<close> stands for that local.
\<close>

definition balloonCD :: "flight_tools \<Rightarrow> real \<Rightarrow> error + real" where
  "balloonCD self reynoldsNumber =
     (if reynoldsNumber < transition self * 100000 then Inr (highCD self)
      else if reynoldsNumber < (transition self + ReBand self) * 100000 then
        bind_res (truediv (reynoldsNumber - transition self * 100000) (ReBand self * 100000))
          (\<lambda>position. Inr (highCD self - (highCD self - lowCD self) * position))
      else Inr (lowCD self))"

text \<open>
  \<open>abs(ascentRate) ** 2\<close> and \<open>diameter ** 2\<close> have the integer exponent 2: the power
  is the square, a float, and never raises on reals.
\<close>

definition balloonDrag :: "flight_tools \<Rightarrow> real \<Rightarrow> real \<Rightarrow> real \<Rightarrow> real \<Rightarrow> error + real" where
  "balloonDrag self diameter ascentRate density viscosity =
     bind_res (truediv (density * \<bar>ascentRate\<bar> * diameter) viscosity) (\<lambda>reynoldsNumber.
     bind_res (balloonCD self reynoldsNumber) (\<lambda>coefficient.
     Inr (0.5 * density * \<bar>ascentRate\<bar> ^ 2 * (pi * diameter ^ 2 / 4) * coefficient)))"

section \<open>Basic facts\<close>

lemma bind_res_Inr [simp]: "bind_res (Inr x) f = f x"
  by (simp add: bind_res_def)

lemma bind_res_Inl [simp]: "bind_res (Inl e) f = Inl e"
  by (simp add: bind_res_def)

lemma truediv_nonzero [simp]: "y \<noteq> 0 \<Longrightarrow> truediv x y = Inr (x / y)"
  by (simp add: truediv_def)

lemma truediv_zero [simp]: "truediv x 0 = Inl ZeroDivisionError"
  by (simp add: truediv_def)

lemma truediv_f64_nonzero [simp]: "y \<noteq> Finite 0 \<Longrightarrow> truediv_f64 x y = Inr (fdiv x y)"
  by (simp add: truediv_f64_def)

lemma truediv_f64_zero [simp]: "truediv_f64 x (Finite 0) = Inl ZeroDivisionError"
  by (simp add: truediv_f64_def)


section \<open>Rounding\<close>

subsection \<open>Rounding to an integer\<close>

lemma round_half_even_of_int [simp]: "round_half_even (of_int n) = n"
  by (simp add: round_half_even_def)

lemma round_half_even_cases:
  "round_half_even y = \<lfloor>y\<rfloor> \<and> y - of_int \<lfloor>y\<rfloor> \<le> 1 / 2
   \<or> round_half_even y = \<lfloor>y\<rfloor> + 1 \<and> 1 / 2 \<le> y - of_int \<lfloor>y\<rfloor>"
  by (auto simp: round_half_even_def)

lemma round_half_even_lower: "y - 1 / 2 \<le> of_int (round_half_even y)"
  using round_half_even_cases [of y] by linarith

lemma round_half_even_upper: "of_int (round_half_even y) \<le> y + 1 / 2"
  using round_half_even_cases [of y] by linarith

lemma round_half_even_eqI:
  assumes "\<bar>y - of_int m\<bar> < 1 / 2 \<or> (\<bar>y - of_int m\<bar> = 1 / 2 \<and> even m)"
  shows "round_half_even y = m"
proof -
  consider (above) "of_int m \<le> y" "y < of_int m + 1 / 2"
    | (below) "of_int m - 1 / 2 < y" "y < of_int m"
    | (tie_up) "y = of_int m + 1 / 2" "even m"
    | (tie_down) "y = of_int m - 1 / 2" "even m"
    using assms by (auto simp: abs_if split: if_splits)
  then show ?thesis
  proof cases
    case above
    then have "\<lfloor>y\<rfloor> = m" by (intro floor_unique) simp_all
    with above show ?thesis by (simp add: round_half_even_def)
  next
    case below
    then have f: "\<lfloor>y\<rfloor> = m - 1" by (intro floor_unique) simp_all
    have "1 / 2 < y - of_int (m - 1)" using below by simp
    with f show ?thesis by (simp add: round_half_even_def)
  next
    case tie_up
    then have "\<lfloor>y\<rfloor> = m" by (intro floor_unique) simp_all
    with tie_up show ?thesis by (simp add: round_half_even_def)
  next
    case tie_down
    then have f: "\<lfloor>y\<rfloor> = m - 1" by (intro floor_unique) simp_all
    have fr: "y - of_int \<lfloor>y\<rfloor> = 1 / 2" unfolding f using tie_down by simp
    have od: "odd \<lfloor>y\<rfloor>" unfolding f using tie_down by simp
    show ?thesis unfolding round_half_even_def fr using od f by simp
  qed
qed

lemma round_half_even_mono:
  assumes "x \<le> y"
  shows "round_half_even x \<le> round_half_even y"
proof (rule ccontr)
  assume "\<not> round_half_even x \<le> round_half_even y"
  then have "round_half_even y + 1 \<le> round_half_even x" by simp
  then have "real_of_int (round_half_even y + 1) \<le> real_of_int (round_half_even x)"
    by (simp only: of_int_le_iff)
  then have lt: "real_of_int (round_half_even y) + 1 \<le> real_of_int (round_half_even x)" by simp
  from lt round_half_even_lower [of y] round_half_even_upper [of x] assms
  have "x = y" by linarith
  with lt show False by simp
qed

lemma round_half_even_tie:
  assumes "\<bar>y - of_int (round_half_even y)\<bar> = 1 / 2"
  shows "even (round_half_even y)"
proof -
  have fl: "of_int \<lfloor>y\<rfloor> \<le> y" "y < of_int \<lfloor>y\<rfloor> + 1" by linarith+
  from round_half_even_cases [of y] show ?thesis
  proof
    assume a: "round_half_even y = \<lfloor>y\<rfloor> \<and> y - of_int \<lfloor>y\<rfloor> \<le> 1 / 2"
    with assms fl have "y - of_int \<lfloor>y\<rfloor> = 1 / 2" by (simp add: abs_if split: if_splits)
    with a show ?thesis by (simp add: round_half_even_def split: if_splits)
  next
    assume a: "round_half_even y = \<lfloor>y\<rfloor> + 1 \<and> 1 / 2 \<le> y - of_int \<lfloor>y\<rfloor>"
    with assms fl have "y - of_int \<lfloor>y\<rfloor> = 1 / 2" by (simp add: abs_if split: if_splits)
    with a show ?thesis by (simp add: round_half_even_def split: if_splits)
  qed
qed

lemma round_half_even_minus: "round_half_even (- y) = - round_half_even y"
proof (rule round_half_even_eqI)
  let ?m = "round_half_even y"
  have c: "\<bar>y - of_int ?m\<bar> \<le> 1 / 2"
    using round_half_even_lower [of y] round_half_even_upper [of y] by linarith
  have s: "\<bar>- y - of_int (- ?m)\<bar> = \<bar>y - of_int ?m\<bar>" by simp
  show "\<bar>- y - of_int (- ?m)\<bar> < 1 / 2 \<or> \<bar>- y - of_int (- ?m)\<bar> = 1 / 2 \<and> even (- ?m)"
  proof (cases "\<bar>y - of_int ?m\<bar> < 1 / 2")
    case True
    then show ?thesis unfolding s by simp
  next
    case False
    with c have e: "\<bar>y - of_int ?m\<bar> = 1 / 2" by simp
    then have "even ?m" by (rule round_half_even_tie)
    with e show ?thesis unfolding s by simp
  qed
qed

lemma round_half_even_zero [simp]: "round_half_even 0 = 0"
  using round_half_even_of_int [of 0] by simp

lemma round_half_even_nonneg: "0 \<le> y \<Longrightarrow> 0 \<le> round_half_even y"
  using round_half_even_mono [of 0 y] by simp

subsection \<open>Exponent and unit in the last place\<close>

lemma two_powr_int: "(2::real) powr real_of_int k = 2 powi k"
  by (rule powr_real_of_int') simp_all

lemma floor_log2_eqI:
  assumes "2 powi k \<le> x" "x < 2 powi (k + 1)"
  shows "\<lfloor>log 2 x\<rfloor> = k"
proof -
  have "0 < (2::real) powi k" by simp
  with assms(1) have pos: "0 < x" by linarith
  have "2 powr real_of_int k \<le> x \<and> x < 2 powr (real_of_int k + 1)"
    using assms two_powr_int [of k] two_powr_int [of "k + 1"] by simp
  then show ?thesis using floor_log_eq_powr_iff [of x 2 k] pos by simp
qed

lemma floor_log2_bounds:
  assumes "0 < x"
  shows "2 powi \<lfloor>log 2 x\<rfloor> \<le> x" "x < 2 powi (\<lfloor>log 2 x\<rfloor> + 1)"
proof -
  have "2 powr real_of_int \<lfloor>log 2 x\<rfloor> \<le> x \<and> x < 2 powr (real_of_int \<lfloor>log 2 x\<rfloor> + 1)"
    using floor_log_eq_powr_iff [of x 2 "\<lfloor>log 2 x\<rfloor>"] assms by simp
  then show "2 powi \<lfloor>log 2 x\<rfloor> \<le> x" "x < 2 powi (\<lfloor>log 2 x\<rfloor> + 1)"
    using two_powr_int [of "\<lfloor>log 2 x\<rfloor>"] two_powr_int [of "\<lfloor>log 2 x\<rfloor> + 1"] by simp_all
qed

lemma exponent_eqI:
  assumes "2 powi e \<le> \<bar>x\<bar>" "\<bar>x\<bar> < 2 powi (e + 1)" "- 1022 \<le> e"
  shows "exponent x = e"
  using floor_log2_eqI [OF assms(1,2)] assms(3) by (simp add: exponent_def)

lemma exponent_subnormal:
  assumes "x \<noteq> 0" "\<bar>x\<bar> < 2 powi (- 1022)"
  shows "exponent x = - 1022"
proof -
  have pos: "0 < \<bar>x\<bar>" using assms(1) by simp
  have "\<lfloor>log 2 \<bar>x\<bar>\<rfloor> < - 1022"
  proof (rule ccontr)
    assume "\<not> \<lfloor>log 2 \<bar>x\<bar>\<rfloor> < - 1022"
    then have "(2::real) powi (- 1022) \<le> 2 powi \<lfloor>log 2 \<bar>x\<bar>\<rfloor>"
      by (intro power_int_increasing) simp_all
    with floor_log2_bounds(1) [OF pos] assms(2) show False by linarith
  qed
  then show ?thesis by (simp add: exponent_def)
qed

lemma exponent_minus [simp]: "exponent (- x) = exponent x"
  by (simp add: exponent_def)

lemma exponent_ge: "- 1022 \<le> exponent x"
  by (simp add: exponent_def)

lemma ulp_pos [simp]: "0 < ulp x"
  by (simp add: ulp_def)

lemma ulp_nonneg [simp]: "0 \<le> ulp x"
  by (simp add: ulp_def)

lemma ulp_minus [simp]: "ulp (- x) = ulp x"
  by (simp add: ulp_def)

lemma nearest_zero [simp]: "nearest 0 = 0"
  by (simp add: nearest_def)

lemma nearest_minus: "nearest (- x) = - nearest x"
  by (simp add: nearest_def round_half_even_minus)

lemma nearest_nonneg:
  assumes "0 \<le> x"
  shows "0 \<le> nearest x"
proof -
  have "0 \<le> x / ulp x" using assms ulp_pos [of x] by (rule divide_nonneg_pos)
  then have "0 \<le> round_half_even (x / ulp x)" by (rule round_half_even_nonneg)
  then have "0 \<le> real_of_int (round_half_even (x / ulp x))" by simp
  then show ?thesis unfolding nearest_def by (intro mult_nonneg_nonneg) simp_all
qed

lemma nearest_eqI:
  assumes "exponent x = e"
    and "\<bar>x / 2 powi (e - 52) - of_int m\<bar> < 1 / 2
        \<or> (\<bar>x / 2 powi (e - 52) - of_int m\<bar> = 1 / 2 \<and> even m)"
  shows "nearest x = of_int m * 2 powi (e - 52)"
  using round_half_even_eqI [OF assms(2)] assms(1) by (simp add: nearest_def ulp_def)

text \<open>A positive number and its rounding lie in the same closed binade.\<close>

lemma nearest_binade:
  assumes "2 powi e \<le> x" "x < 2 powi (e + 1)" "- 1022 \<le> e"
  shows "2 powi e \<le> nearest x" "nearest x \<le> 2 powi (e + 1)"
proof -
  have pos: "0 < x" using assms(1) zero_less_power_int [of "2::real" e] by linarith
  have ex: "exponent x = e" using exponent_eqI [of e x] assms pos by simp
  let ?u = "(2::real) powi (e - 52)"
  have u: "0 < ?u" by simp
  have lo: "2 powi e = ?u * of_int (2 ^ 52)"
    using power_int_add [of "2::real" "e - 52" 52] by simp
  have hi: "2 powi (e + 1) = ?u * of_int (2 ^ 53)"
  proof -
    have "2 powi (e + 1) = (2::real) powi ((e - 52) + 53)"
      by (rule arg_cong [where f = "\<lambda>k. 2 powi k"]) simp
    also have "\<dots> = ?u * 2 powi 53" by (rule power_int_add) simp
    finally show ?thesis by simp
  qed
  have "of_int (2 ^ 52) \<le> x / ?u" using assms(1) u unfolding lo by (simp add: field_simps)
  then have "round_half_even (of_int (2 ^ 52)) \<le> round_half_even (x / ?u)"
    by (rule round_half_even_mono)
  then have a: "real_of_int (2 ^ 52) \<le> of_int (round_half_even (x / ?u))"
    unfolding round_half_even_of_int by (simp only: of_int_le_iff)
  have "x / ?u \<le> of_int (2 ^ 53)" using assms(2) u unfolding hi by (simp add: field_simps)
  then have "round_half_even (x / ?u) \<le> round_half_even (of_int (2 ^ 53))"
    by (rule round_half_even_mono)
  then have b: "of_int (round_half_even (x / ?u)) \<le> real_of_int (2 ^ 53)"
    unfolding round_half_even_of_int by (simp only: of_int_le_iff)
  have n: "nearest x = ?u * of_int (round_half_even (x / ?u))"
    by (simp add: nearest_def ulp_def ex)
  show "2 powi e \<le> nearest x" unfolding n lo using a u by (intro mult_left_mono) simp_all
  show "nearest x \<le> 2 powi (e + 1)" unfolding n hi using b u by (intro mult_left_mono) simp_all
qed

lemma nearest_subnormal_le:
  assumes "0 < x" "x < 2 powi (- 1022)"
  shows "nearest x \<le> 2 powi (- 1022)"
proof -
  have ex: "exponent x = - 1022" using exponent_subnormal [of x] assms by simp
  let ?u = "(2::real) powi (- 1074)"
  have u: "0 < ?u" by simp
  have hi: "2 powi (- 1022) = ?u * of_int (2 ^ 52)"
    using power_int_add [of "2::real" "- 1074" 52] by simp
  have "x / ?u \<le> of_int (2 ^ 52)" using assms(2) u unfolding hi by (simp add: field_simps)
  then have "round_half_even (x / ?u) \<le> round_half_even (of_int (2 ^ 52))"
    by (rule round_half_even_mono)
  then have b: "of_int (round_half_even (x / ?u)) \<le> real_of_int (2 ^ 52)"
    unfolding round_half_even_of_int by (simp only: of_int_le_iff)
  have n: "nearest x = ?u * of_int (round_half_even (x / ?u))"
    by (simp add: nearest_def ulp_def ex)
  show ?thesis unfolding n hi using b u by (intro mult_left_mono) simp_all
qed

lemma nearest_mono_pos:
  assumes "0 < x" "x \<le> y"
  shows "nearest x \<le> nearest y"
proof -
  have ypos: "0 < y" using assms by simp
  have "log 2 x \<le> log 2 y" using assms by simp
  then have "\<lfloor>log 2 x\<rfloor> \<le> \<lfloor>log 2 y\<rfloor>" by (rule floor_mono)
  then have exy: "exponent x \<le> exponent y"
    using assms ypos by (simp add: exponent_def)
  show ?thesis
  proof (cases "exponent x = exponent y")
    case True
    then have u: "ulp x = ulp y" by (simp add: ulp_def)
    have "x / ulp y \<le> y / ulp y"
      using assms(2) less_imp_le [OF ulp_pos [of y]] by (rule divide_right_mono)
    then have "round_half_even (x / ulp y) \<le> round_half_even (y / ulp y)"
      by (rule round_half_even_mono)
    then have "real_of_int (round_half_even (x / ulp y)) \<le> of_int (round_half_even (y / ulp y))"
      by (simp only: of_int_le_iff)
    then show ?thesis unfolding nearest_def u by (intro mult_left_mono) simp_all
  next
    case False
    with exy have lt: "exponent x < exponent y" by simp
    define e where "e = exponent y"
    have ey: "- 1022 < e" using lt exponent_ge [of x] by (simp add: e_def)
    then have fl: "\<lfloor>log 2 y\<rfloor> = e" using ypos by (simp add: e_def exponent_def max_def split: if_splits)
    have ylo: "2 powi e \<le> y" "y < 2 powi (e + 1)"
      using floor_log2_bounds [OF ypos] unfolding fl by simp_all
    have ny: "2 powi e \<le> nearest y" using nearest_binade(1) [OF ylo] ey by simp
    have nx: "nearest x \<le> 2 powi (exponent x + 1)"
    proof (cases "x < 2 powi (- 1022)")
      case True
      have "nearest x \<le> 2 powi (- 1022)" by (rule nearest_subnormal_le [OF assms(1) True])
      also have "\<dots> \<le> 2 powi (exponent x + 1)"
        using exponent_ge [of x] by (intro power_int_increasing) simp_all
      finally show ?thesis .
    next
      case False
      have "\<not> \<lfloor>log 2 x\<rfloor> < - 1022"
      proof
        assume "\<lfloor>log 2 x\<rfloor> < - 1022"
        then have b: "\<lfloor>log 2 x\<rfloor> + 1 \<le> - 1022" by linarith
        have "(2::real) powi (\<lfloor>log 2 x\<rfloor> + 1) \<le> 2 powi (- 1022)"
          by (rule power_int_increasing [OF b]) simp
        with floor_log2_bounds(2) [OF assms(1)] False show False by linarith
      qed
      then have fx: "\<lfloor>log 2 x\<rfloor> = exponent x" using assms(1) by (simp add: exponent_def)
      have "2 powi exponent x \<le> x" "x < 2 powi (exponent x + 1)"
        using floor_log2_bounds [OF assms(1)] unfolding fx by simp_all
      then show ?thesis using nearest_binade(2) [of "exponent x" x] exponent_ge [of x] by simp
    qed
    have "(2::real) powi (exponent x + 1) \<le> 2 powi e"
      using lt by (intro power_int_increasing) (simp_all add: e_def)
    with nx ny show ?thesis by linarith
  qed
qed

lemma nearest_mono:
  assumes "x \<le> y"
  shows "nearest x \<le> nearest y"
proof -
  consider (pos) "0 < x" | (neg) "y < 0" | (mixed) "x \<le> 0" "0 \<le> y" by linarith
  then show ?thesis
  proof cases
    case pos
    then show ?thesis using assms by (rule nearest_mono_pos)
  next
    case neg
    then have "nearest (- y) \<le> nearest (- x)" using assms by (intro nearest_mono_pos) simp_all
    then show ?thesis by (simp add: nearest_minus)
  next
    case mixed
    have "0 \<le> nearest (- x)" using mixed(1) by (intro nearest_nonneg) simp
    then have "nearest x \<le> 0" by (simp add: nearest_minus)
    also have "0 \<le> nearest y" using mixed(2) by (rule nearest_nonneg)
    finally show ?thesis .
  qed
qed

subsection \<open>Facts about rounding\<close>

lemma rnd_zero [simp]: "rnd 0 = Finite 0"
  by (simp add: rnd_def)

lemma rnd_not_NaN [simp]: "rnd x \<noteq> NaN"
  by (simp add: rnd_def)

lemma rnd_Finite_iff: "rnd x = Finite y \<longleftrightarrow> nearest x = y \<and> \<bar>y\<bar> < 2 ^ 1024"
  by (auto simp: rnd_def abs_if)

lemma rnd_eqI:
  assumes "2 powi e \<le> \<bar>x\<bar>" "\<bar>x\<bar> < 2 powi (e + 1)" "- 1022 \<le> e" "e \<le> 1023"
    and "\<bar>m\<bar> < 2 ^ 53"
    and "\<bar>x - of_int m * 2 powi (e - 52)\<bar> * 2 < 2 powi (e - 52)
        \<or> (\<bar>x - of_int m * 2 powi (e - 52)\<bar> * 2 = 2 powi (e - 52) \<and> even m)"
  shows "rnd x = Finite (of_int m * 2 powi (e - 52))"
proof -
  let ?u = "(2::real) powi (e - 52)"
  have u: "0 < ?u" by simp
  have ex: "exponent x = e" by (rule exponent_eqI [OF assms(1,2,3)])
  have d: "\<bar>x / ?u - of_int m\<bar> = \<bar>x - of_int m * ?u\<bar> / ?u"
  proof -
    have "x / ?u - of_int m = (x - of_int m * ?u) / ?u" using u by (simp add: field_simps)
    then show ?thesis using u by (simp add: abs_divide del: of_int_mult)
  qed
  have c: "\<bar>x / ?u - of_int m\<bar> < 1 / 2 \<or> (\<bar>x / ?u - of_int m\<bar> = 1 / 2 \<and> even m)"
    unfolding d using assms(6) u by (auto simp: field_simps)
  have n: "nearest x = of_int m * ?u" by (rule nearest_eqI [OF ex c])
  have "\<bar>real_of_int m\<bar> < 2 ^ 53" using assms(5)
    by (metis of_int_abs of_int_less_iff of_int_numeral of_int_power)
  then have "\<bar>of_int m * ?u\<bar> < 2 ^ 53 * ?u"
    using u by (simp add: abs_mult)
  also have "2 ^ 53 * ?u = 2 powi (e + 1)"
  proof -
    have "2 powi (e + 1) = (2::real) powi (53 + (e - 52))"
      by (rule arg_cong [where f = "\<lambda>k. 2 powi k"]) simp
    also have "\<dots> = 2 powi 53 * ?u" by (rule power_int_add) simp
    finally show ?thesis by simp
  qed
  also have "\<dots> \<le> 2 powi 1024"
    using assms(4) by (intro power_int_increasing) simp_all
  finally have "\<bar>of_int m * ?u\<bar> < 2 ^ 1024" by simp
  with n show ?thesis by (simp add: rnd_Finite_iff)
qed

text \<open>An integer multiple of a power of two with at most 53 significant bits is a double.\<close>

lemma nearest_exact:
  assumes "\<bar>m\<bar> < 2 ^ 53" "- 1074 \<le> k"
  shows "nearest (of_int m * 2 powi k) = of_int m * 2 powi k"
proof (cases "m = 0")
  case True
  then show ?thesis by simp
next
  case False
  let ?x = "real_of_int m * 2 powi k"
  have xne: "?x \<noteq> 0" using False by simp
  have mb: "\<bar>real_of_int m\<bar> < 2 ^ 53" using assms(1)
    by (metis of_int_abs of_int_less_iff of_int_numeral of_int_power)
  have "\<bar>?x\<bar> < 2 ^ 53 * 2 powi k"
    using mb by (simp add: abs_mult)
  also have "\<dots> = 2 powi (53 + k)"
    using power_int_add [of "2::real" 53 k] by simp
  finally have xb: "\<bar>?x\<bar> < 2 powi (53 + k)" .
  have el: "exponent ?x \<le> 52 + k"
  proof (rule ccontr)
    assume "\<not> exponent ?x \<le> 52 + k"
    then have a: "53 + k \<le> exponent ?x" by simp
    have b: "(2::real) powi (53 + k) \<le> 2 powi exponent ?x"
      by (rule power_int_increasing [OF a]) simp
    have "- 1022 < exponent ?x" using a assms(2) by simp
    then have fl: "\<lfloor>log 2 \<bar>?x\<bar>\<rfloor> = exponent ?x"
      by (simp add: exponent_def max_def split: if_splits)
    have "2 powi exponent ?x \<le> \<bar>?x\<bar>"
      using floor_log2_bounds(1) [of "\<bar>?x\<bar>"] xne unfolding fl by simp
    with b xb show False by linarith
  qed
  define x where "x = real_of_int m * 2 powi k"
  define u where "u = ulp x"
  define j where "j = 52 + k - exponent x"
  have u: "0 < u" by (simp add: u_def)
  have j: "0 \<le> j" using el by (simp add: j_def x_def)
  have kk: "k = (exponent x - 52) + j" by (simp add: j_def)
  have "2 powi k = 2 powi (exponent x - 52) * (2::real) powi j"
    by (subst kk, rule power_int_add) simp
  then have pk: "2 powi k = u * 2 ^ nat j"
    using j by (simp add: u_def ulp_def power_int_def)
  have xu: "x = u * of_int (m * 2 ^ nat j)"
    by (simp add: x_def pk)
  have q: "x / u = of_int (m * 2 ^ nat j)"
    using u by (simp add: xu del: of_int_mult of_int_power)
  have "nearest x = u * of_int (round_half_even (x / u))"
    by (simp add: nearest_def u_def)
  also have "\<dots> = x" unfolding q round_half_even_of_int by (rule xu [symmetric])
  finally show ?thesis by (simp add: x_def)
qed

lemma rnd_exact:
  assumes "\<bar>m\<bar> < 2 ^ 53" "- 1074 \<le> k" "k \<le> 971"
  shows "rnd (of_int m * 2 powi k) = Finite (of_int m * 2 powi k)"
proof -
  have mb: "\<bar>real_of_int m\<bar> < 2 ^ 53" using assms(1)
    by (metis of_int_abs of_int_less_iff of_int_numeral of_int_power)
  have "\<bar>real_of_int m * 2 powi k\<bar> < 2 ^ 53 * 2 powi k"
    using mb by (simp add: abs_mult)
  also have "\<dots> = 2 powi (53 + k)"
    using power_int_add [of "2::real" 53 k] by simp
  also have "\<dots> \<le> 2 powi 1024"
    using assms(3) by (intro power_int_increasing) simp_all
  finally have "\<bar>real_of_int m * 2 powi k\<bar> < 2 ^ 1024" by simp
  then show ?thesis using nearest_exact [OF assms(1,2)] by (simp add: rnd_Finite_iff)
qed

lemma rnd_of_int:
  assumes "\<bar>n\<bar> < 2 ^ 53"
  shows "rnd (of_int n) = Finite (of_int n)"
  using rnd_exact [OF assms, of 0] by simp

lemma rnd_numeral [simp]:
  "numeral n < (9007199254740992::int) \<Longrightarrow> rnd (numeral n) = Finite (numeral n)"
  using rnd_of_int [of "numeral n"] by simp

lemma rnd_neg_numeral [simp]:
  "numeral n < (9007199254740992::int) \<Longrightarrow> rnd (- numeral n) = Finite (- numeral n)"
  using rnd_of_int [of "- numeral n"] by simp

lemma rnd_one [simp]: "rnd 1 = Finite 1"
  using rnd_of_int [of 1] by simp

lemma rnd_neg_one [simp]: "rnd (- 1) = Finite (- 1)"
  using rnd_of_int [of "- 1"] by simp

text \<open>Rounding is monotone, so it never crosses a double.\<close>

lemma is_double_nearest: "is_double (Finite d) \<Longrightarrow> nearest d = d"
  by (simp add: rnd_Finite_iff)

lemma is_double_bound: "is_double (Finite d) \<Longrightarrow> \<bar>d\<bar> < 2 ^ 1024"
  by (simp add: rnd_Finite_iff)

lemma nearest_le_double:
  assumes "is_double (Finite d)" "x \<le> d"
  shows "nearest x \<le> d"
  using nearest_mono [OF assms(2)] is_double_nearest [OF assms(1)] by simp

lemma nearest_ge_double:
  assumes "is_double (Finite d)" "d \<le> x"
  shows "d \<le> nearest x"
  using nearest_mono [OF assms(2)] is_double_nearest [OF assms(1)] by simp

lemma rnd_nonneg_cases:
  assumes "0 \<le> x"
  shows "rnd x = PosInf \<or> (\<exists>y. rnd x = Finite y \<and> 0 \<le> y)"
  using nearest_nonneg [OF assms] by (auto simp: rnd_def)

lemma rnd_nonpos_cases:
  assumes "x \<le> 0"
  shows "rnd x = NegInf \<or> (\<exists>y. rnd x = Finite y \<and> y \<le> 0)"
proof -
  have "0 \<le> nearest (- x)" using assms by (intro nearest_nonneg) simp
  then have "nearest x \<le> 0" by (simp add: nearest_minus)
  then show ?thesis by (auto simp: rnd_def)
qed

subsection \<open>Comparison\<close>

lemma flt_PosInf_left [simp]: "\<not> flt PosInf y"
  by (cases y) simp_all

lemma flt_NegInf_right [simp]: "\<not> flt x NegInf"
  by (cases x) simp_all

lemma flt_NaN_right [simp]: "\<not> flt x NaN"
  by (cases x) simp_all

lemma flt_irrefl [simp]: "\<not> flt x x"
  by (cases x) simp_all

lemma fle_not_flt: "fle x y \<Longrightarrow> \<not> flt y x"
  by (cases x; cases y) simp_all

lemma flt_zero_pos: "flt (Finite 0) v \<longleftrightarrow> v = PosInf \<or> (\<exists>r. v = Finite r \<and> 0 < r)"
  by (cases v) simp_all

lemma fle_zero_nonneg: "fle (Finite 0) v \<longleftrightarrow> v = PosInf \<or> (\<exists>r. v = Finite r \<and> 0 \<le> r)"
  by (cases v) simp_all

section \<open>Facts about the float operations\<close>

subsection \<open>Literals and squares\<close>

lemma literal_half [simp]: "literal (1 / 2) = Finite (1 / 2)"
  using rnd_exact [of 1 "- 1"] by (simp add: literal_def)

lemma odd_integer_two [simp]: "\<not> odd_integer 2"
  by (simp add: odd_integer_def)

lemma square_Finite:
  "square libm_pow (Finite x) =
     (if x = 0 then Inr (Finite 0)
      else if \<bar>x\<bar> = 1 then Inr (Finite 1)
      else case libm_pow \<bar>x\<bar> 2 of
             Finite r \<Rightarrow> Inr (Finite r)
           | NaN \<Rightarrow> Inr NaN
           | _ \<Rightarrow> Inl OverflowError)"
  by (simp add: square_def float_pow_def split: double.splits)

lemma square_PosInf [simp]: "square libm_pow PosInf = Inr PosInf"
  by (simp add: square_def float_pow_def)

lemma square_NegInf [simp]: "square libm_pow NegInf = Inr PosInf"
  by (simp add: square_def float_pow_def)

lemma square_NaN [simp]: "square libm_pow NaN = Inr NaN"
  by (simp add: square_def float_pow_def)

lemma square_not_ZeroDivisionError [simp]: "square libm_pow v \<noteq> Inl ZeroDivisionError"
  by (cases v) (simp_all add: square_Finite split: double.splits)

lemma square_fabs [simp]: "square libm_pow (fabs (fneg v)) = square libm_pow (fabs v)"
  by (cases v) simp_all

lemma nonneg_pow_exact_pow: "nonneg_pow exact_pow"
proof -
  have "fle (Finite 0) (rnd (x powr y))" for x y :: real
    using rnd_nonneg_cases [of "x powr y"] by auto
  then show ?thesis by (simp add: nonneg_pow_def exact_pow_def)
qed

lemma square_not_negative:
  assumes "nonneg_pow libm_pow" "square libm_pow v = Inr s"
  shows "\<not> flt s (Finite 0)"
proof (cases v)
  case (Finite x)
  show ?thesis
  proof (cases "x = 0 \<or> \<bar>x\<bar> = 1")
    case True
    then have "s = Finite 0 \<or> s = Finite 1"
      using assms(2) Finite by (auto simp: square_Finite split: if_splits)
    then show ?thesis by auto
  next
    case False
    then have "0 < \<bar>x\<bar>" by simp
    then have "fle (Finite 0) (libm_pow \<bar>x\<bar> 2)" using assms(1) by (simp add: nonneg_pow_def)
    then show ?thesis using assms(2) Finite False
      by (cases "libm_pow \<bar>x\<bar> 2") (auto simp: square_Finite)
  qed
qed (use assms(2) in auto)

subsection \<open>Signs of products and quotients\<close>

lemma fmul_not_negative:
  assumes "\<not> flt a (Finite 0)" "\<not> flt b (Finite 0)"
  shows "\<not> flt (fmul a b) (Finite 0)"
proof (cases a; cases b)
  fix x y assume ab: "a = Finite x" "b = Finite y"
  with assms have "0 \<le> x * y" by simp
  from rnd_nonneg_cases [OF this] show ?thesis using ab by auto
qed (use assms in \<open>auto split: if_splits\<close>)

lemma fdiv_not_negative:
  assumes "\<not> flt a (Finite 0)" "0 < y"
  shows "\<not> flt (fdiv a (Finite y)) (Finite 0)"
proof (cases a)
  case (Finite x)
  with assms have "0 \<le> x / y" by simp
  from rnd_nonneg_cases [OF this] show ?thesis using Finite by auto
qed (use assms in auto)

lemma fle_zero_not_negative: "fle (Finite 0) a \<Longrightarrow> \<not> flt a (Finite 0)"
  by (rule fle_not_flt)

lemma exact_pow_two: "0 < x \<Longrightarrow> exact_pow x 2 = rnd (x * x)"
  by (simp add: exact_pow_def power2_eq_square)

subsection \<open>Scaling by four\<close>

lemma nearest_times_four:
  assumes "2 powi (- 1022) \<le> \<bar>y\<bar>"
  shows "nearest (4 * y) = 4 * nearest y"
proof -
  have pos: "0 < \<bar>y\<bar>" using assms zero_less_power_int [of "2::real" "- 1022"] by linarith
  define e where "e = \<lfloor>log 2 \<bar>y\<bar>\<rfloor>"
  have b: "2 powi e \<le> \<bar>y\<bar>" "\<bar>y\<bar> < 2 powi (e + 1)"
    using floor_log2_bounds [OF pos] by (simp_all add: e_def)
  have "\<not> e + 1 \<le> - 1022"
  proof
    assume a: "e + 1 \<le> - 1022"
    have "(2::real) powi (e + 1) \<le> 2 powi (- 1022)"
      by (rule power_int_increasing [OF a]) simp
    with b(2) assms show False by linarith
  qed
  then have e: "- 1022 \<le> e" by simp
  have ey: "exponent y = e" by (rule exponent_eqI [OF b e])
  have four: "(4::real) = 2 powi 2" by simp
  have p2: "2 powi (e + 2) = 4 * (2::real) powi e"
    using power_int_add [of "2::real" 2 e] by (simp add: add.commute)
  have p3: "2 powi (e + 2 + 1) = 4 * (2::real) powi (e + 1)"
    using power_int_add [of "2::real" 2 "e + 1"] by (simp add: add.commute add.left_commute)
  have "2 powi (e + 2) \<le> \<bar>4 * y\<bar>" "\<bar>4 * y\<bar> < 2 powi (e + 2 + 1)"
    unfolding p2 p3 using b by (simp_all add: abs_mult)
  then have e4: "exponent (4 * y) = e + 2" using e by (intro exponent_eqI) simp_all
  have u4: "ulp (4 * y) = 4 * ulp y"
  proof -
    have "ulp (4 * y) = 2 powi (2 + (e - 52))" unfolding ulp_def e4
      by (rule arg_cong [where f = "\<lambda>k. 2 powi k"]) simp
    also have "\<dots> = 2 powi 2 * 2 powi (e - 52)" by (rule power_int_add) simp
    finally show ?thesis by (simp add: ulp_def ey)
  qed
  have q: "4 * y / (4 * ulp y) = y / ulp y" by simp
  show ?thesis unfolding nearest_def u4 q by simp
qed

lemma nearest_abs_le:
  assumes "\<bar>y\<bar> \<le> d" "is_double (Finite d)"
  shows "\<bar>nearest y\<bar> \<le> d"
proof -
  have "nearest y \<le> d" using assms by (intro nearest_le_double) simp_all
  moreover have "nearest (- y) \<le> d" using assms by (intro nearest_le_double) simp_all
  ultimately show ?thesis by (simp add: nearest_minus abs_if)
qed

lemma is_double_two_powi:
  assumes "- 1074 \<le> k" "k \<le> 1023"
  shows "is_double (Finite (2 powi k))"
proof -
  have "rnd (of_int 1 * 2 powi k) = Finite (of_int 1 * 2 powi k)"
  proof (cases "k \<le> 971")
    case True
    then show ?thesis using assms by (intro rnd_exact) simp_all
  next
    case False
    define j where "j = k - 971"
    have j: "0 \<le> j" "j \<le> 52" using False assms by (simp_all add: j_def)
    have "(2::real) powi k = 2 powi (j + 971)"
      by (rule arg_cong [where f = "\<lambda>k. 2 powi k"]) (simp add: j_def)
    also have "\<dots> = 2 powi j * 2 powi 971" by (rule power_int_add) simp
    also have "2 powi j = (2::real) ^ nat j" using j by (simp add: power_int_def)
    finally have eq: "(2::real) powi k = of_int (2 ^ nat j) * 2 powi 971" by simp
    have "(2::int) ^ nat j \<le> 2 ^ 52" using j by (intro power_increasing) simp_all
    then have "\<bar>(2::int) ^ nat j\<bar> < 2 ^ 53" by simp
    then have "rnd (of_int (2 ^ nat j) * 2 powi 971) = Finite (of_int (2 ^ nat j) * 2 powi 971)"
      by (intro rnd_exact) simp_all
    then show ?thesis unfolding eq [symmetric] by simp
  qed
  then show ?thesis by simp
qed

lemma rnd_times_four:
  assumes "scalable y" "rnd y = Finite b"
  shows "rnd (4 * y) = Finite (4 * b)"
proof (cases "y = 0")
  case True
  with assms(2) show ?thesis by simp
next
  case False
  with assms(1) have lo: "2 powi (- 1022) \<le> \<bar>y\<bar>" and hi: "\<bar>y\<bar> < 2 powi 1021"
    by (simp_all add: scalable_def)
  have n: "nearest y = b" using assms(2) by (simp add: rnd_Finite_iff)
  have "\<bar>nearest y\<bar> \<le> 2 powi 1021"
    using hi by (intro nearest_abs_le is_double_two_powi) simp_all
  then have "\<bar>4 * b\<bar> \<le> 4 * 2 powi 1021" unfolding n by simp
  also have "\<dots> < (2::real) ^ 1024" by simp
  finally have "\<bar>4 * b\<bar> < 2 ^ 1024" .
  then show ?thesis using nearest_times_four [OF lo] n by (simp add: rnd_Finite_iff)
qed

lemma fmul_times_four:
  assumes "scalable (x * y)" "fmul (Finite x) (Finite y) = Finite b"
  shows "fmul (Finite (4 * x)) (Finite y) = Finite (4 * b)"
  using rnd_times_four [OF assms(1)] assms(2) by (simp add: mult.assoc)

lemma rnd_overflow_two_1024: "rnd (2 ^ 1024) = PosInf"
proof -
  have "nearest (of_int (2 ^ 52) * 2 powi 972) = of_int (2 ^ 52) * 2 powi 972"
    by (rule nearest_exact) simp_all
  moreover have "of_int (2 ^ 52) * 2 powi 972 = (2::real) ^ 1024" by simp
  ultimately have "nearest (2 ^ 1024) = 2 ^ 1024" by simp
  then show ?thesis by (simp add: rnd_def)
qed

section \<open>Float nozzle lift\<close>



section \<open>Balloon drag over the reals\<close>

text \<open>
  For a positive \<open>ReBand\<close> the coefficient is a clamped linear blend from
  \<open>highCD\<close> to \<open>lowCD\<close> over the band. The division in the blend never raises:
  its branch is entered only when the band is not empty.
\<close>

lemma balloonCD_blend:
  assumes "0 < ReBand self"
  shows "balloonCD self re =
    Inr (highCD self - (highCD self - lowCD self) *
      max 0 (min 1 ((re - transition self * 100000) / (ReBand self * 100000))))"
proof -
  let ?t = "transition self * 100000" and ?b = "ReBand self * 100000"
  have b: "0 < ?b" using assms by simp
  consider (low) "re < ?t" | (mid) "?t \<le> re" "re < ?t + ?b" | (high) "?t + ?b \<le> re"
    by linarith
  then show ?thesis
  proof cases
    case low
    then have "(re - ?t) / ?b < 0" using b by (simp add: divide_neg_pos)
    then have "max 0 (min 1 ((re - ?t) / ?b)) = 0" by simp
    with low show ?thesis by (simp add: balloonCD_def)
  next
    case mid
    then have "0 \<le> (re - ?t) / ?b" "(re - ?t) / ?b < 1" using b by simp_all
    then have "max 0 (min 1 ((re - ?t) / ?b)) = (re - ?t) / ?b" by simp
    moreover have "re < (transition self + ReBand self) * 100000" using mid by (simp add: algebra_simps)
    ultimately show ?thesis using mid b by (simp add: balloonCD_def)
  next
    case high
    then have "1 \<le> (re - ?t) / ?b" using b by simp
    then have "max 0 (min 1 ((re - ?t) / ?b)) = 1" by simp
    moreover have "\<not> re < (transition self + ReBand self) * 100000" "\<not> re < ?t" using high b by (simp_all add: algebra_simps)
    ultimately show ?thesis by (simp add: balloonCD_def)
  qed
qed

lemma balloonCD_isCont:
  assumes "0 < ReBand self"
  shows "isCont (\<lambda>re. projr (balloonCD self re)) a"
proof -
  have "(\<lambda>re. projr (balloonCD self re)) =
        (\<lambda>re. highCD self - (highCD self - lowCD self) *
           max 0 (min 1 ((re - transition self * 100000) / (ReBand self * 100000))))"
    using assms by (simp add: balloonCD_blend)
  moreover have "isCont (\<lambda>re. highCD self - (highCD self - lowCD self) *
           max 0 (min 1 ((re - transition self * 100000) / (ReBand self * 100000)))) a"
    using assms by (intro continuous_intros) simp
  ultimately show ?thesis by simp
qed

lemma balloonDrag_nonzero_viscosity:
  "viscosity \<noteq> 0 \<Longrightarrow>
   balloonDrag self diameter ascentRate density viscosity =
     bind_res (balloonCD self (density * \<bar>ascentRate\<bar> * diameter / viscosity)) (\<lambda>coefficient.
       Inr (0.5 * density * \<bar>ascentRate\<bar> ^ 2 * (pi * diameter ^ 2 / 4) * coefficient))"
  by (simp add: balloonDrag_def)

lemma balloonCD_lower_edge:
  "0 < ReBand self \<Longrightarrow> balloonCD self (transition self * 100000) = Inr (highCD self)"
  by (simp add: balloonCD_def)

lemma balloonCD_upper_edge:
  "0 < ReBand self \<Longrightarrow> balloonCD self ((transition self + ReBand self) * 100000) = Inr (lowCD self)"
  by (simp add: balloonCD_def)

text \<open>
  With an empty band (\<open>ReBand \<le> 0\<close>) the second test fails at the transition
  itself, and the coefficient there is \<open>lowCD\<close>.
\<close>

lemma balloonCD_empty_band:
  "ReBand self \<le> 0 \<Longrightarrow> balloonCD self (transition self * 100000) = Inr (lowCD self)"
  by (simp add: balloonCD_def algebra_simps)



text \<open>
  C6. \<open>balloonDrag\<close> does not depend on the sign of the ascent rate.
\<close>

theorem balloonDrag_sign_symmetric:
  "balloonDrag self diameter ascentRate density viscosity =
   balloonDrag self diameter (- ascentRate) density viscosity"
  by (simp add: balloonDrag_def)

section \<open>Float gas profile\<close>

text \<open>
  The venting threshold computed in floating point is never above the floating altitude.
\<close>

lemma threshold_le_floatingAltitude:
  assumes "flt (Finite 0) ventStart" "is_double floatingAltitude" "fle floatingAltitude currentAltitude"
  shows "\<not> flt currentAltitude (fsub floatingAltitude ventStart)"
proof (cases floatingAltitude)
  case (Finite a)
  from assms(1) consider (inf) "ventStart = PosInf" | (fin) v where "ventStart = Finite v" "0 < v"
    by (auto simp: flt_zero_pos)
  then show ?thesis
  proof cases
    case inf
    then show ?thesis using Finite by (cases currentAltitude) (simp_all add: fsub_def)
  next
    case fin
    have d: "is_double (Finite a)" using assms(2) Finite by simp
    have le: "nearest (a - v) \<le> a" using fin(2) by (intro nearest_le_double [OF d]) simp
    have b: "a < 2 ^ 1024" using is_double_bound [OF d] by simp
    have s: "fsub floatingAltitude ventStart = rnd (a - v)"
      by (simp add: fsub_def Finite fin(1))
    show ?thesis
    proof (cases "rnd (a - v)")
      case (Finite y)
      then have "y \<le> a" using le by (simp add: rnd_Finite_iff)
      then show ?thesis using assms(3) \<open>floatingAltitude = Finite a\<close> Finite
        unfolding s by (cases currentAltitude) simp_all
    next
      case PosInf
      then have "2 ^ 1024 \<le> nearest (a - v)" by (simp add: rnd_def split: if_splits)
      with le b show ?thesis by linarith
    next
      case NegInf
      then show ?thesis unfolding s by simp
    next
      case NaN
      then show ?thesis by simp
    qed
  qed
next
  case PosInf
  then have c: "currentAltitude = PosInf" using assms(3) by (cases currentAltitude) simp_all
  show ?thesis unfolding c by simp
next
  case NegInf
  from assms(1) have "fsub NegInf ventStart = NegInf"
    by (cases ventStart) (simp_all add: fsub_def)
  then show ?thesis using NegInf by (cases currentAltitude) simp_all
next
  case NaN
  then show ?thesis using assms(3) by simp
qed

lemma gasMassForFloat_f64_region_values:
  assumes "flt (Finite 0) ventStart" and "is_double floatingAltitude"
  shows "(flt currentAltitude (fsub floatingAltitude ventStart) \<longrightarrow>
            gasMassForFloat_f64 currentAltitude floatingAltitude gasMassAtInflation
              gasMassAtFloatingAltitude ventStart = Inr gasMassAtInflation)
       \<and> (\<not> flt currentAltitude (fsub floatingAltitude ventStart)
            \<and> flt currentAltitude floatingAltitude \<longrightarrow>
            gasMassForFloat_f64 currentAltitude floatingAltitude gasMassAtInflation
              gasMassAtFloatingAltitude ventStart =
            Inr (fadd (fmul (fdiv (fsub gasMassAtInflation gasMassAtFloatingAltitude) ventStart)
                         (fsub floatingAltitude currentAltitude))
                   gasMassAtFloatingAltitude))
       \<and> (fle floatingAltitude currentAltitude \<longrightarrow>
            gasMassForFloat_f64 currentAltitude floatingAltitude gasMassAtInflation
              gasMassAtFloatingAltitude ventStart = Inr gasMassAtFloatingAltitude)
       \<and> gasMassForFloat_f64 floatingAltitude floatingAltitude gasMassAtInflation
            gasMassAtFloatingAltitude ventStart = Inr gasMassAtFloatingAltitude"
proof (intro conjI impI)
  have vs: "ventStart \<noteq> Finite 0" using assms(1) by auto
  show "gasMassForFloat_f64 currentAltitude floatingAltitude gasMassAtInflation
      gasMassAtFloatingAltitude ventStart = Inr gasMassAtInflation"
    if "flt currentAltitude (fsub floatingAltitude ventStart)"
    using that by (simp add: gasMassForFloat_f64_def)
  show "gasMassForFloat_f64 currentAltitude floatingAltitude gasMassAtInflation
      gasMassAtFloatingAltitude ventStart =
    Inr (fadd (fmul (fdiv (fsub gasMassAtInflation gasMassAtFloatingAltitude) ventStart)
                 (fsub floatingAltitude currentAltitude))
           gasMassAtFloatingAltitude)"
    if "\<not> flt currentAltitude (fsub floatingAltitude ventStart)
        \<and> flt currentAltitude floatingAltitude"
    using that vs by (simp add: gasMassForFloat_f64_def)
  show "gasMassForFloat_f64 currentAltitude floatingAltitude gasMassAtInflation
      gasMassAtFloatingAltitude ventStart = Inr gasMassAtFloatingAltitude"
    if "fle floatingAltitude currentAltitude"
    using threshold_le_floatingAltitude [OF assms that] fle_not_flt [OF that]
    by (simp add: gasMassForFloat_f64_def)
  show "gasMassForFloat_f64 floatingAltitude floatingAltitude gasMassAtInflation
      gasMassAtFloatingAltitude ventStart = Inr gasMassAtFloatingAltitude"
  proof (cases "floatingAltitude = NaN")
    case True
    then show ?thesis by (simp add: gasMassForFloat_f64_def)
  next
    case False
    then have "fle floatingAltitude floatingAltitude" by (cases floatingAltitude) simp_all
    from threshold_le_floatingAltitude [OF assms this] show ?thesis
      by (simp add: gasMassForFloat_f64_def)
  qed
qed




text \<open>Signs of the interpolation term, and a sum that does not pass a double.\<close>

lemma rnd_ge_double:
  assumes "is_double (Finite g)" "g \<le> x"
  shows "\<not> flt (rnd x) (Finite g)"
proof -
  have n: "g \<le> nearest x" by (rule nearest_ge_double [OF assms])
  have b: "- (2 ^ 1024) < g" using is_double_bound [OF assms(1)] by (simp add: abs_if split: if_splits)
  show ?thesis using n b by (auto simp: rnd_def)
qed

lemma rnd_le_double:
  assumes "is_double (Finite g)" "x \<le> g"
  shows "\<not> flt (Finite g) (rnd x)"
proof -
  have n: "nearest x \<le> g" by (rule nearest_le_double [OF assms])
  have b: "g < 2 ^ 1024" using is_double_bound [OF assms(1)] by (simp add: abs_if split: if_splits)
  show ?thesis using n b by (auto simp: rnd_def)
qed

lemma fadd_not_below:
  assumes "\<not> flt p (Finite 0)" "is_double (Finite g)"
  shows "\<not> flt (fadd p (Finite g)) (Finite g)"
proof (cases p)
  case (Finite x)
  then have "g \<le> x + g" using assms(1) by simp
  from rnd_ge_double [OF assms(2) this] show ?thesis using Finite by simp
qed (use assms in auto)

lemma fadd_not_above:
  assumes "\<not> flt (Finite 0) p" "is_double (Finite g)"
  shows "\<not> flt (Finite g) (fadd p (Finite g))"
proof (cases p)
  case (Finite x)
  then have "x + g \<le> g" using assms(1) by simp
  from rnd_le_double [OF assms(2) this] show ?thesis using Finite by simp
qed (use assms in auto)

lemma fsub_not_negative:
  assumes "x \<le> y"
  shows "\<not> flt (fsub (Finite y) (Finite x)) (Finite 0)"
  using rnd_nonneg_cases [of "y - x"] assms by (auto simp: fsub_def)

lemma fsub_not_positive:
  assumes "y \<le> x"
  shows "\<not> flt (Finite 0) (fsub (Finite y) (Finite x))"
  using rnd_nonpos_cases [of "y - x"] assms by (auto simp: fsub_def)

lemma fsub_flt_not_negative:
  assumes "flt c a"
  shows "\<not> flt (fsub a c) (Finite 0)"
proof (cases a; cases c)
  fix x y assume "a = Finite x" "c = Finite y"
  then show ?thesis using assms fsub_not_negative [of y x] by simp
qed (use assms in \<open>auto simp: fsub_def\<close>)

lemma fdiv_pos_not_negative:
  assumes "\<not> flt n (Finite 0)" "flt (Finite 0) d"
  shows "\<not> flt (fdiv n d) (Finite 0)"
proof (cases n; cases d)
  fix x y assume nd: "n = Finite x" "d = Finite y"
  then have "0 \<le> x / y" using assms by simp
  from rnd_nonneg_cases [OF this] show ?thesis using nd by auto
qed (use assms in auto)

lemma fdiv_pos_not_positive:
  assumes "\<not> flt (Finite 0) n" "flt (Finite 0) d"
  shows "\<not> flt (Finite 0) (fdiv n d)"
proof (cases n; cases d)
  fix x y assume nd: "n = Finite x" "d = Finite y"
  then have "x / y \<le> 0" using assms by (simp add: divide_nonpos_pos)
  from rnd_nonpos_cases [OF this] show ?thesis using nd by auto
qed (use assms in auto)

lemma fmul_not_positive:
  assumes "\<not> flt (Finite 0) a" "\<not> flt b (Finite 0)"
  shows "\<not> flt (Finite 0) (fmul a b)"
proof (cases a; cases b)
  fix x y assume ab: "a = Finite x" "b = Finite y"
  with assms have "x * y \<le> 0" by (simp add: mult_nonpos_nonneg)
  from rnd_nonpos_cases [OF this] show ?thesis using ab by auto
qed (use assms in \<open>auto split: if_splits\<close>)

lemma gasMassForFloat_f64_float_side:
  assumes "flt (Finite 0) ventStart" and "is_double (Finite gasMassAtFloatingAltitude)"
  shows "\<exists>gasMass.
           gasMassForFloat_f64 currentAltitude floatingAltitude (Finite gasMassAtInflation)
             (Finite gasMassAtFloatingAltitude) ventStart = Inr gasMass
         \<and> (gasMassAtFloatingAltitude \<le> gasMassAtInflation \<longrightarrow>
              \<not> flt gasMass (Finite gasMassAtFloatingAltitude))
         \<and> (gasMassAtInflation \<le> gasMassAtFloatingAltitude \<longrightarrow>
              \<not> flt (Finite gasMassAtFloatingAltitude) gasMass)"
proof -
  have vs: "ventStart \<noteq> Finite 0" using assms(1) by auto
  consider (inflation) "flt currentAltitude (fsub floatingAltitude ventStart)"
    | (venting) "\<not> flt currentAltitude (fsub floatingAltitude ventStart)"
        "flt currentAltitude floatingAltitude"
    | (floating) "\<not> flt currentAltitude (fsub floatingAltitude ventStart)"
        "\<not> flt currentAltitude floatingAltitude"
    by blast
  then show ?thesis
  proof cases
    case inflation
    then show ?thesis by (simp add: gasMassForFloat_f64_def)
  next
    case floating
    then show ?thesis by (simp add: gasMassForFloat_f64_def)
  next
    case venting
    define slope where
      "slope = fdiv (fsub (Finite gasMassAtInflation) (Finite gasMassAtFloatingAltitude)) ventStart"
    define rest where "rest = fsub floatingAltitude currentAltitude"
    have r: "gasMassForFloat_f64 currentAltitude floatingAltitude (Finite gasMassAtInflation)
        (Finite gasMassAtFloatingAltitude) ventStart =
        Inr (fadd (fmul slope rest) (Finite gasMassAtFloatingAltitude))"
      using venting vs unfolding slope_def rest_def
      by (simp add: gasMassForFloat_f64_def del: fadd.simps fmul.simps fdiv.simps)
    have rest: "\<not> flt rest (Finite 0)"
      unfolding rest_def by (rule fsub_flt_not_negative [OF venting(2)])
    have lo: "\<not> flt (fadd (fmul slope rest) (Finite gasMassAtFloatingAltitude))
        (Finite gasMassAtFloatingAltitude)"
      if "gasMassAtFloatingAltitude \<le> gasMassAtInflation"
    proof -
      have "\<not> flt slope (Finite 0)" unfolding slope_def
        by (intro fdiv_pos_not_negative fsub_not_negative that assms(1))
      then have "\<not> flt (fmul slope rest) (Finite 0)" using rest by (rule fmul_not_negative)
      then show ?thesis using assms(2) by (rule fadd_not_below)
    qed
    have hi: "\<not> flt (Finite gasMassAtFloatingAltitude)
        (fadd (fmul slope rest) (Finite gasMassAtFloatingAltitude))"
      if "gasMassAtInflation \<le> gasMassAtFloatingAltitude"
    proof -
      have "\<not> flt (Finite 0) slope" unfolding slope_def
        by (intro fdiv_pos_not_positive fsub_not_positive that assms(1))
      then have "\<not> flt (Finite 0) (fmul slope rest)" using rest by (rule fmul_not_positive)
      then show ?thesis using assms(2) by (rule fadd_not_above)
    qed
    show ?thesis unfolding r using lo hi by blast
  qed
qed




section \<open>Parachute drag\<close>

text \<open>
  C8 (as amended). \<open>parachuteDrag\<close> raises \<open>OverflowError\<close> when \<open>descentRate ** 2\<close>
  overflows, and otherwise returns the float product 0.5 * density * descentRate ** 2 *
  parachuteAref * parachuteCD, multiplied from left to right with every product
  rounded. Doubling the descent rate multiplies the drag by exactly four whenever the
  power does so for the square and no product of the chain leaves the range in which
  rounding commutes with the factor four.
\<close>

theorem parachuteDrag_f64_formula:
  "(square libm_pow descentRate = Inl OverflowError \<longrightarrow>
      parachuteDrag_f64 libm_pow self descentRate density = Inl OverflowError)
   \<and> (square libm_pow descentRate = Inr rateSquared \<longrightarrow>
      parachuteDrag_f64 libm_pow self descentRate density =
        Inr (fmul (fmul (fmul (fmul (literal 0.5) density) rateSquared)
                     (parachuteAref_f64 self)) (parachuteCD_f64 self)))
   \<and> (square libm_pow (Finite v) = Inr (Finite s)
      \<and> square libm_pow (Finite (2 * v)) = Inr (Finite (4 * s))
      \<and> parachuteAref_f64 self = Finite a \<and> parachuteCD_f64 self = Finite c
      \<and> fmul (literal 0.5) density = Finite p0
      \<and> fmul (Finite s) (Finite p0) = Finite p1 \<and> scalable (s * p0)
      \<and> fmul (Finite p1) (Finite a) = Finite p2 \<and> scalable (p1 * a)
      \<and> fmul (Finite p2) (Finite c) = Finite drag \<and> scalable (p2 * c) \<longrightarrow>
      parachuteDrag_f64 libm_pow self (Finite v) density = Inr (Finite drag)
      \<and> parachuteDrag_f64 libm_pow self (Finite (2 * v)) density = Inr (Finite (4 * drag)))"
proof (intro conjI impI)
  assume h: "square libm_pow (Finite v) = Inr (Finite s)
      \<and> square libm_pow (Finite (2 * v)) = Inr (Finite (4 * s))
      \<and> parachuteAref_f64 self = Finite a \<and> parachuteCD_f64 self = Finite c
      \<and> fmul (literal 0.5) density = Finite p0
      \<and> fmul (Finite s) (Finite p0) = Finite p1 \<and> scalable (s * p0)
      \<and> fmul (Finite p1) (Finite a) = Finite p2 \<and> scalable (p1 * a)
      \<and> fmul (Finite p2) (Finite c) = Finite drag \<and> scalable (p2 * c)"
  have c1: "fmul (Finite p0) (Finite s) = Finite p1" using h by (simp add: mult.commute)
  have f1: "fmul (Finite p0) (Finite (4 * s)) = Finite (4 * p1)"
    using fmul_times_four [of s p0 p1] h by (simp add: mult.commute)
  have f2: "fmul (Finite (4 * p1)) (Finite a) = Finite (4 * p2)"
    using fmul_times_four [of p1 a p2] h by simp
  have f3: "fmul (Finite (4 * p2)) (Finite c) = Finite (4 * drag)"
    using fmul_times_four [of p2 c drag] h by simp
  show "parachuteDrag_f64 libm_pow self (Finite v) density = Inr (Finite drag)"
    using h c1 by (simp add: parachuteDrag_f64_def del: fmul.simps)
  show "parachuteDrag_f64 libm_pow self (Finite (2 * v)) density = Inr (Finite (4 * drag))"
    using h f1 f2 f3 by (simp add: parachuteDrag_f64_def del: fmul.simps)
qed (simp_all add: parachuteDrag_f64_def)

theorem parachuteDrag_f64_formula_witness:
  "square exact_pow (Finite (2 ^ 512)) = Inl OverflowError
   \<and> parachuteDrag_f64 exact_pow
       \<lparr>highCD_f64 = Finite 0, lowCD_f64 = Finite 0, transition_f64 = Finite 0,
      ReBand_f64 = Finite 0, parachuteAref_f64 = Finite 2, parachuteCD_f64 = Finite (3 / 4)\<rparr>
       (Finite (2 ^ 512)) (Finite (3 / 2)) = Inl OverflowError
   \<and> square exact_pow (Finite 3) = Inr (Finite 9)
   \<and> square exact_pow (Finite (2 * 3)) = Inr (Finite (4 * 9))
   \<and> fmul (literal 0.5) (Finite (3 / 2)) = Finite (3 / 4)
   \<and> fmul (Finite 9) (Finite (3 / 4)) = Finite (27 / 4) \<and> scalable (9 * (3 / 4))
   \<and> fmul (Finite (27 / 4)) (Finite 2) = Finite (27 / 2) \<and> scalable (27 / 4 * 2)
   \<and> fmul (Finite (27 / 2)) (Finite (3 / 4)) = Finite (81 / 8) \<and> scalable (27 / 2 * (3 / 4))
   \<and> parachuteDrag_f64 exact_pow
       \<lparr>highCD_f64 = Finite 0, lowCD_f64 = Finite 0, transition_f64 = Finite 0,
      ReBand_f64 = Finite 0, parachuteAref_f64 = Finite 2, parachuteCD_f64 = Finite (3 / 4)\<rparr>
       (Finite 3) (Finite (3 / 2)) = Inr (Finite (81 / 8))
   \<and> parachuteDrag_f64 exact_pow
       \<lparr>highCD_f64 = Finite 0, lowCD_f64 = Finite 0, transition_f64 = Finite 0,
      ReBand_f64 = Finite 0, parachuteAref_f64 = Finite 2, parachuteCD_f64 = Finite (3 / 4)\<rparr>
       (Finite (2 * 3)) (Finite (3 / 2)) = Inr (Finite (4 * (81 / 8)))"
proof -
  let ?self = "\<lparr>highCD_f64 = Finite 0, lowCD_f64 = Finite 0, transition_f64 = Finite 0,
      ReBand_f64 = Finite 0, parachuteAref_f64 = Finite 2, parachuteCD_f64 = Finite (3 / 4)\<rparr>"
  have w1: "rnd 9 = Finite (9)"
    using rnd_eqI [where e = 3 and m = 5066549580791808 and x = "9"] by (simp)
  have w2: "rnd 36 = Finite (36)"
    using rnd_eqI [where e = 5 and m = 5066549580791808 and x = "36"] by (simp)
  have w3: "fmul (Finite (1 / 2)) (Finite (3 / 2)) = Finite (3 / 4)"
    using rnd_eqI [where e = "- 1" and m = 6755399441055744 and x = "3 / 4"] by (simp)
  have w4: "fmul (Finite (9)) (Finite (3 / 4)) = Finite (27 / 4)"
    using rnd_eqI [where e = 2 and m = 7599824371187712 and x = "27 / 4"] by (simp)
  have w5: "fmul (Finite (27 / 4)) (Finite (2)) = Finite (27 / 2)"
    using rnd_eqI [where e = 3 and m = 7599824371187712 and x = "27 / 2"] by (simp)
  have w6: "fmul (Finite (27 / 2)) (Finite (3 / 4)) = Finite (81 / 8)"
    using rnd_eqI [where e = 3 and m = 5699868278390784 and x = "81 / 8"] by (simp)
  have w7: "fmul (Finite (3 / 4)) (Finite (9)) = Finite (27 / 4)"
    using rnd_eqI [where e = 2 and m = 7599824371187712 and x = "27 / 4"] by (simp)
  have w8: "fmul (Finite (3 / 4)) (Finite (36)) = Finite (27)"
    using rnd_eqI [where e = 4 and m = 7599824371187712 and x = "27"] by (simp)
  have w9: "fmul (Finite (27)) (Finite (2)) = Finite (54)"
    using rnd_eqI [where e = 5 and m = 7599824371187712 and x = "54"] by (simp)
  have w10: "fmul (Finite (54)) (Finite (3 / 4)) = Finite (81 / 2)"
    using rnd_eqI [where e = 5 and m = 5699868278390784 and x = "81 / 2"] by (simp)
  have o: "square exact_pow (Finite (2 ^ 512)) = Inl OverflowError"
    using rnd_overflow_two_1024 by (simp add: square_Finite exact_pow_two)
  have q3: "square exact_pow (Finite 3) = Inr (Finite 9)"
    using w1 by (simp add: square_Finite exact_pow_two)
  have q6: "square exact_pow (Finite (2 * 3)) = Inr (Finite (4 * 9))"
    using w2 by (simp add: square_Finite exact_pow_two)
  have sc: "scalable (9 * (3 / 4))" "scalable (27 / 4 * 2)" "scalable (27 / 2 * (3 / 4))"
    by (simp_all add: scalable_def)
  have f0: "fmul (literal 0.5) (Finite (3 / 2)) = Finite (3 / 4)"
    using w3 by simp
  note th = parachuteDrag_f64_formula [where libm_pow = exact_pow and self = ?self
      and density = "Finite (3 / 2)"]
  have a: "parachuteDrag_f64 exact_pow ?self (Finite (2 ^ 512)) (Finite (3 / 2))
      = Inl OverflowError"
    using th [where descentRate = "Finite (2 ^ 512)"] o by blast
  have b: "parachuteDrag_f64 exact_pow ?self (Finite 3) (Finite (3 / 2)) = Inr (Finite (81 / 8))
      \<and> parachuteDrag_f64 exact_pow ?self (Finite (2 * 3)) (Finite (3 / 2))
          = Inr (Finite (4 * (81 / 8)))"
    using th [where v = 3 and s = 9 and a = 2 and c = "3 / 4" and ?p0.0 = "3 / 4"
        and ?p1.0 = "27 / 4" and ?p2.0 = "27 / 2" and drag = "81 / 8"]
      q3 q6 f0 w4 w5 w6 sc
    by (simp del: fmul.simps)
  show ?thesis using o a b q3 q6 f0 w4 w5 w6 sc by (simp del: fmul.simps)
qed

text \<open>
  The drag is not quadratic for every descent rate: with \<open>parachuteAref = parachuteCD = 1\<close>
  and the density 1, the descent rate \<open>2 ^ 511\<close> has the drag \<open>2 ^ 1021\<close>, and twice
  that rate raises \<open>OverflowError\<close>.
\<close>

theorem parachuteDrag_f64_doubling_counterexample:
  "parachuteDrag_f64 exact_pow
     \<lparr>highCD_f64 = Finite 0, lowCD_f64 = Finite 0, transition_f64 = Finite 0,
      ReBand_f64 = Finite 0, parachuteAref_f64 = Finite 1, parachuteCD_f64 = Finite 1\<rparr>
     (Finite (2 ^ 511)) (Finite 1) = Inr (Finite (2 ^ 1021))
   \<and> parachuteDrag_f64 exact_pow
     \<lparr>highCD_f64 = Finite 0, lowCD_f64 = Finite 0, transition_f64 = Finite 0,
      ReBand_f64 = Finite 0, parachuteAref_f64 = Finite 1, parachuteCD_f64 = Finite 1\<rparr>
     (Finite (2 * 2 ^ 511)) (Finite 1) = Inl OverflowError"
proof -
  have c1: "rnd (2 ^ 1022) = Finite (2 ^ 1022)"
    using rnd_eqI [where e = 1022 and m = 4503599627370496 and x = "2 ^ 1022"] by (simp)
  have c2: "fmul (Finite (1 / 2)) (Finite (1)) = Finite (1 / 2)"
    using rnd_eqI [where e = "- 1" and m = 4503599627370496 and x = "1 / 2"] by (simp)
  have c3: "fmul (Finite (1 / 2)) (Finite (2 ^ 1022)) = Finite (2 ^ 1021)"
    using rnd_eqI [where e = 1021 and m = 4503599627370496 and x = "2 ^ 1021"] by (simp)
  have c4: "fmul (Finite (2 ^ 1021)) (Finite (1)) = Finite (2 ^ 1021)"
    using rnd_eqI [where e = 1021 and m = 4503599627370496 and x = "2 ^ 1021"] by (simp)
  have q: "square exact_pow (Finite (2 ^ 511)) = Inr (Finite (2 ^ 1022))"
    using c1 by (simp add: square_Finite exact_pow_two)
  have o: "square exact_pow (Finite (2 * 2 ^ 511)) = Inl OverflowError"
    using rnd_overflow_two_1024 by (simp add: square_Finite exact_pow_two)
  show ?thesis
    using q o c2 c3 c4 by (simp add: parachuteDrag_f64_def del: fmul.simps)
qed

section \<open>Unset calibration\<close>

lemma balloonCD_f64_class_defaults [simp]:
  "balloonCD_f64 class_defaults_f64 reynoldsNumber = Inr (Finite 0)"
  by (simp add: balloonCD_f64_def class_defaults_f64_def)

text \<open>
  C9 (as amended). With the class defaults (every calibration attribute 0) no error is
  raised for the configuration. \<open>balloonDrag\<close> returns 0 whenever the viscosity is not
  zero, neither square raises \<open>OverflowError\<close> and the product 0.5 * density *
  abs(ascentRate) ** 2 * (pi * diameter ** 2 / 4) that is multiplied by the coefficient
  is finite; \<open>parachuteDrag\<close> returns 0 whenever the square does not raise and the
  product 0.5 * density * descentRate ** 2 is finite.
\<close>

theorem unset_calibration_f64_zero_drag:
  "(viscosity \<noteq> Finite 0
      \<and> square libm_pow (fabs ascentRate) = Inr speedSquared
      \<and> square libm_pow diameter = Inr diameterSquared
      \<and> fmul (fmul (fmul (literal 0.5) density) speedSquared)
            (fdiv (fmul pi_f64 diameterSquared) (Finite 4)) = Finite product \<longrightarrow>
      balloonDrag_f64 libm_pow class_defaults_f64 diameter ascentRate density viscosity
        = Inr (Finite 0))
   \<and> (square libm_pow descentRate = Inr rateSquared
      \<and> fmul (fmul (literal 0.5) airDensity) rateSquared = Finite product' \<longrightarrow>
      parachuteDrag_f64 libm_pow class_defaults_f64 descentRate airDensity = Inr (Finite 0))"
proof (intro conjI impI)
  assume "viscosity \<noteq> Finite 0
      \<and> square libm_pow (fabs ascentRate) = Inr speedSquared
      \<and> square libm_pow diameter = Inr diameterSquared
      \<and> fmul (fmul (fmul (literal 0.5) density) speedSquared)
            (fdiv (fmul pi_f64 diameterSquared) (Finite 4)) = Finite product"
  then show "balloonDrag_f64 libm_pow class_defaults_f64 diameter ascentRate density viscosity
      = Inr (Finite 0)"
    by (simp add: balloonDrag_f64_def)
next
  assume "square libm_pow descentRate = Inr rateSquared
      \<and> fmul (fmul (literal 0.5) airDensity) rateSquared = Finite product'"
  then show "parachuteDrag_f64 libm_pow class_defaults_f64 descentRate airDensity
      = Inr (Finite 0)"
    by (simp add: parachuteDrag_f64_def class_defaults_f64_def)
qed

theorem unset_calibration_f64_zero_drag_witness:
  "Finite (1 / 65536) \<noteq> Finite 0
   \<and> square exact_pow (fabs (Finite (- 5))) = Inr (Finite 25)
   \<and> square exact_pow (Finite 2) = Inr (Finite 4)
   \<and> fmul (fmul (fmul (literal 0.5) (Finite (3 / 2))) (Finite 25))
         (fdiv (fmul pi_f64 (Finite 4)) (Finite 4)) = Finite (1036265295707291 / 17592186044416)
   \<and> balloonDrag_f64 exact_pow class_defaults_f64 (Finite 2) (Finite (- 5)) (Finite (3 / 2))
       (Finite (1 / 65536)) = Inr (Finite 0)
   \<and> square exact_pow (Finite 7) = Inr (Finite 49)
   \<and> fmul (fmul (literal 0.5) (Finite (5 / 4))) (Finite 49) = Finite (245 / 8)
   \<and> parachuteDrag_f64 exact_pow class_defaults_f64 (Finite 7) (Finite (5 / 4)) = Inr (Finite 0)"
proof -
  have w1: "rnd 25 = Finite (25)"
    using rnd_eqI [where e = 4 and m = 7036874417766400 and x = "25"] by (simp)
  have w2: "rnd 4 = Finite (4)"
    using rnd_eqI [where e = 2 and m = 4503599627370496 and x = "4"] by (simp)
  have w3: "rnd 49 = Finite (49)"
    using rnd_eqI [where e = 5 and m = 6896136929411072 and x = "49"] by (simp)
  have w4: "fmul (Finite (1 / 2)) (Finite (3 / 2)) = Finite (3 / 4)"
    using rnd_eqI [where e = "- 1" and m = 6755399441055744 and x = "3 / 4"] by (simp)
  have w5: "fmul (Finite (3 / 4)) (Finite (25)) = Finite (75 / 4)"
    using rnd_eqI [where e = 4 and m = 5277655813324800 and x = "75 / 4"] by (simp)
  have w6: "fmul (Finite (884279719003555 / 281474976710656)) (Finite (4)) = Finite (884279719003555 / 70368744177664)"
    using rnd_eqI [where e = 3 and m = 7074237752028440 and x = "884279719003555 / 70368744177664"] by (simp)
  have w7: "fdiv (Finite (884279719003555 / 70368744177664)) (Finite (4)) = Finite (884279719003555 / 281474976710656)"
    using rnd_eqI [where e = 1 and m = 7074237752028440 and x = "884279719003555 / 281474976710656"] by (simp)
  have w8: "fmul (Finite (75 / 4)) (Finite (884279719003555 / 281474976710656)) = Finite (1036265295707291 / 17592186044416)"
    using rnd_eqI [where e = 5 and m = 8290122365658328 and x = "66320978925266625 / 1125899906842624"] by (simp)
  have w9: "fmul (Finite (1 / 2)) (Finite (5 / 4)) = Finite (5 / 8)"
    using rnd_eqI [where e = "- 1" and m = 5629499534213120 and x = "5 / 8"] by (simp)
  have w10: "fmul (Finite (5 / 8)) (Finite (49)) = Finite (245 / 8)"
    using rnd_eqI [where e = 4 and m = 8620171161763840 and x = "245 / 8"] by (simp)
  have q5: "square exact_pow (fabs (Finite (- 5))) = Inr (Finite 25)"
    using w1 by (simp add: square_Finite exact_pow_two)
  have q2: "square exact_pow (Finite 2) = Inr (Finite 4)"
    using w2 by (simp add: square_Finite exact_pow_two)
  have q7: "square exact_pow (Finite 7) = Inr (Finite 49)"
    using w3 by (simp add: square_Finite exact_pow_two)
  have p: "fmul (fmul (fmul (literal 0.5) (Finite (3 / 2))) (Finite 25))
         (fdiv (fmul pi_f64 (Finite 4)) (Finite 4)) = Finite (1036265295707291 / 17592186044416)"
    using w4 w5 w6 w7 w8 by (simp add: pi_f64_def del: fmul.simps fdiv.simps)
  have p': "fmul (fmul (literal 0.5) (Finite (5 / 4))) (Finite 49) = Finite (245 / 8)"
    using w9 w10 by (simp del: fmul.simps)
  have v: "Finite (1 / 65536) \<noteq> Finite 0" by simp
  note th = unset_calibration_f64_zero_drag [where libm_pow = exact_pow
      and viscosity = "Finite (1 / 65536)" and ascentRate = "Finite (- 5)"
      and speedSquared = "Finite 25" and diameter = "Finite 2" and diameterSquared = "Finite 4"
      and density = "Finite (3 / 2)" and product = "1036265295707291 / 17592186044416"
      and descentRate = "Finite 7" and rateSquared = "Finite 49" and airDensity = "Finite (5 / 4)"
      and product' = "245 / 8"]
  have a: "balloonDrag_f64 exact_pow class_defaults_f64 (Finite 2) (Finite (- 5)) (Finite (3 / 2))
       (Finite (1 / 65536)) = Inr (Finite 0)"
    using th v q5 q2 p by blast
  have b: "parachuteDrag_f64 exact_pow class_defaults_f64 (Finite 7) (Finite (5 / 4))
      = Inr (Finite 0)"
    using th q7 p' by blast
  show ?thesis using v q5 q2 p a q7 p' b by blast
qed

text \<open>
  The drags are not zero for every input: with the class defaults an ascent rate or a
  descent rate of \<open>2 ^ 512\<close> (about 1.34e154) raises \<open>OverflowError\<close>.
\<close>

theorem unset_calibration_f64_counterexample:
  "Finite 1 \<noteq> Finite 0
   \<and> balloonDrag_f64 exact_pow class_defaults_f64 (Finite 1) (Finite (2 ^ 512)) (Finite 1)
       (Finite 1) = Inl OverflowError
   \<and> parachuteDrag_f64 exact_pow class_defaults_f64 (Finite (2 ^ 512)) (Finite 1)
       = Inl OverflowError"
proof -
  have o: "square exact_pow (Finite (2 ^ 512)) = Inl OverflowError"
    using rnd_overflow_two_1024 by (simp add: square_Finite exact_pow_two)
  show ?thesis
    using o by (simp add: balloonDrag_f64_def parachuteDrag_f64_def
        del: fmul.simps fdiv.simps)
qed

section \<open>Balloon drag on binary64\<close>

lemma balloonCD_f64_below:
  "flt reynoldsNumber (fmul (transition_f64 self) (Finite 100000)) \<Longrightarrow>
   balloonCD_f64 self reynoldsNumber = Inr (highCD_f64 self)"
  by (simp add: balloonCD_f64_def)

lemma balloonCD_f64_above:
  "\<not> flt reynoldsNumber (fmul (transition_f64 self) (Finite 100000)) \<Longrightarrow>
   \<not> flt reynoldsNumber (fmul (fadd (transition_f64 self) (ReBand_f64 self)) (Finite 100000)) \<Longrightarrow>
   balloonCD_f64 self reynoldsNumber = Inr (lowCD_f64 self)"
  by (simp add: balloonCD_f64_def)

lemma pi_f64_not_negative: "\<not> flt pi_f64 (Finite 0)"
  by (simp add: pi_f64_def)




text \<open>
  Inside the blend band the rounded position can exceed 1, and the coefficient falls
  below \<open>lowCD\<close>: with \<open>highCD = 1\<close>, \<open>lowCD = 0\<close>, \<open>transition = 3\<close> and \<open>ReBand = 1.15\<close>,
  the diameter 1, the ascent rate 6.33239746094 (51875 / 8192), the density 1 and the
  viscosity \<open>2 ^ -16\<close> give the Reynolds number 415000, the position 1.0000000000000002,
  the coefficient \<open>- 2 ^ -52\<close> and a drag below 0, although no input is negative.
\<close>

lemma balloonDrag_f64_blend_negative:
  "balloonDrag_f64 exact_pow
     \<lparr>highCD_f64 = Finite 1, lowCD_f64 = Finite 0, transition_f64 = Finite 3,
      ReBand_f64 = literal 1.15, parachuteAref_f64 = Finite 0, parachuteCD_f64 = Finite 0\<rparr>
     (Finite 1) (Finite (51875 / 8192)) (Finite 1) (Finite (1 / 65536))
     = Inr (Finite (- (8864740061421603 / 2535301200456458802993406410752)))
   \<and> flt (Finite (- (8864740061421603 / 2535301200456458802993406410752))) (Finite 0)"
proof -
  have s1: "fmul (Finite (1)) (Finite (51875 / 8192)) = Finite (51875 / 8192)"
    using rnd_eqI [where e = 2 and m = 7129645711360000 and x = "51875 / 8192"] by (simp)
  have s2: "fmul (Finite (51875 / 8192)) (Finite (1)) = Finite (51875 / 8192)"
    using rnd_eqI [where e = 2 and m = 7129645711360000 and x = "51875 / 8192"] by (simp)
  have s3: "fdiv (Finite (51875 / 8192)) (Finite (1 / 65536)) = Finite (415000)"
    using rnd_eqI [where e = 18 and m = 7129645711360000 and x = "415000"] by (simp)
  have s4: "fmul (Finite (3)) (Finite (100000)) = Finite (300000)"
    using rnd_eqI [where e = 18 and m = 5153960755200000 and x = "300000"] by (simp)
  have s5: "literal (23 / 20) = Finite (2589569785738035 / 2251799813685248)"
    using rnd_eqI [where e = 0 and m = 5179139571476070 and x = "23 / 20"] by (simp add: literal_def)
  have s6: "fadd (Finite (3)) (Finite (2589569785738035 / 2251799813685248)) = Finite (2336242306698445 / 562949953421312)"
    using rnd_eqI [where e = 2 and m = 4672484613396890 and x = "9344969226793779 / 2251799813685248"] by (simp)
  have s7: "fmul (Finite (2336242306698445 / 562949953421312)) (Finite (100000)) = Finite (7129645711360001 / 17179869184)"
    using rnd_eqI [where e = 18 and m = 7129645711360001 and x = "7300757208432640625 / 17592186044416"] by (simp)
  have s8: "fsub (Finite (415000)) (Finite (300000)) = Finite (115000)"
    using rnd_eqI [where e = 16 and m = 7902739824640000 and x = "115000"] by (simp add: fsub_def)
  have s9: "fmul (Finite (2589569785738035 / 2251799813685248)) (Finite (100000)) = Finite (7902739824639999 / 68719476736)"
    using rnd_eqI [where e = 16 and m = 7902739824639999 and x = "8092405580431359375 / 70368744177664"] by (simp)
  have s10: "fdiv (Finite (115000)) (Finite (7902739824639999 / 68719476736)) = Finite (4503599627370497 / 4503599627370496)"
    using rnd_eqI [where e = 0 and m = 4503599627370497 and x = "7902739824640000 / 7902739824639999"] by (simp)
  have s11: "fsub (Finite (1)) (Finite (0)) = Finite (1)"
    using rnd_eqI [where e = 0 and m = 4503599627370496 and x = "1"] by (simp add: fsub_def)
  have s12: "fmul (Finite (1)) (Finite (4503599627370497 / 4503599627370496)) = Finite (4503599627370497 / 4503599627370496)"
    using rnd_eqI [where e = 0 and m = 4503599627370497 and x = "4503599627370497 / 4503599627370496"] by (simp)
  have s13: "fsub (Finite (1)) (Finite (4503599627370497 / 4503599627370496)) = Finite (- (1 / 4503599627370496))"
    using rnd_eqI [where e = "- 52" and m = "- 4503599627370496" and x = "- (1 / 4503599627370496)"] by (simp add: fsub_def)
  have s14: "rnd (2691015625 / 67108864) = Finite (2691015625 / 67108864)"
    using rnd_eqI [where e = 5 and m = 5643468800000000 and x = "2691015625 / 67108864"] by (simp)
  have s15: "fmul (Finite (1 / 2)) (Finite (1)) = Finite (1 / 2)"
    using rnd_eqI [where e = "- 1" and m = 4503599627370496 and x = "1 / 2"] by (simp)
  have s16: "fmul (Finite (1 / 2)) (Finite (2691015625 / 67108864)) = Finite (2691015625 / 134217728)"
    using rnd_eqI [where e = 4 and m = 5643468800000000 and x = "2691015625 / 134217728"] by (simp)
  have s17: "fmul (Finite (884279719003555 / 281474976710656)) (Finite (1)) = Finite (884279719003555 / 281474976710656)"
    using rnd_eqI [where e = 1 and m = 7074237752028440 and x = "884279719003555 / 281474976710656"] by (simp)
  have s18: "fdiv (Finite (884279719003555 / 281474976710656)) (Finite (4)) = Finite (884279719003555 / 1125899906842624)"
    using rnd_eqI [where e = "- 1" and m = 7074237752028440 and x = "884279719003555 / 1125899906842624"] by (simp)
  have s19: "fmul (Finite (2691015625 / 134217728)) (Finite (884279719003555 / 1125899906842624)) = Finite (8864740061421603 / 562949953421312)"
    using rnd_eqI [where e = 3 and m = 8864740061421603 and x = "2379610540709175935546875 / 151115727451828646838272"] by (simp)
  have s20: "fmul (Finite (8864740061421603 / 562949953421312)) (Finite (- (1 / 4503599627370496))) = Finite (- (8864740061421603 / 2535301200456458802993406410752))"
    using rnd_eqI [where e = "- 49" and m = "- 8864740061421603" and x = "- (8864740061421603 / 2535301200456458802993406410752)"] by (simp)
  have q1: "square exact_pow (Finite 1) = Inr (Finite 1)"
    by (simp add: square_Finite)
  have qv: "square exact_pow (Finite (51875 / 8192)) = Inr (Finite (2691015625 / 67108864))"
    using s14 by (simp add: square_Finite exact_pow_two)
  show ?thesis
    using q1 qv s1 s2 s3 s4 s5 s6 s7 s8 s9 s10 s11 s12 s13 s14 s15 s16 s17 s18 s19 s20
    by (simp add: balloonDrag_f64_def balloonCD_f64_def pi_f64_def
        del: fmul.simps fdiv.simps fadd.simps)
qed

section \<open>Lifting gas sizing\<close>

lemma third: "fdiv (Finite 1) (Finite 3) = Finite (6004799503160661 / 18014398509481984)"
  using rnd_eqI [where e = "- 2" and m = 6004799503160661 and x = "1 / 3"] by simp

lemma float_pow_third_cases:
  assumes "\<not> flt base (Finite 0)"
  shows "(\<exists>d. float_pow libm_pow base (fdiv (Finite 1) (Finite 3)) = Inr (PyFloat d))
         \<or> float_pow libm_pow base (fdiv (Finite 1) (Finite 3)) = Inl OverflowError"
  unfolding third using assms
  by (cases base) (simp_all add: float_pow_def split: double.splits)

lemma float_pow_third_not_ZeroDivisionError:
  "float_pow libm_pow base (fdiv (Finite 1) (Finite 3)) \<noteq> Inl ZeroDivisionError"
  unfolding third
  by (cases base) (simp_all add: float_pow_def split: double.splits)

lemma pi_f64_nonzero [simp]: "pi_f64 \<noteq> Finite 0"
  by (simp add: pi_f64_def)

lemma three_nonzero [simp]: "Finite 3 \<noteq> Finite 0"
  by simp

lemma liftingGasMass_f64_unfold:
  assumes "fmul R (fadd ambientTempC (literal 273.15)) \<noteq> Finite 0"
    and "gasDensity =
           fdiv (fmul (fmul (fmul excessPressureCoefficient ambientPressMbar) (Finite 100))
                   gasMolecularMass)
             (fmul R (fadd ambientTempC (literal 273.15)))"
    and "airDensity =
           fdiv (fmul (fmul ambientPressMbar (Finite 100)) airMolecularMass)
             (fmul R (fadd ambientTempC (literal 273.15)))"
    and "fsub airDensity gasDensity \<noteq> Finite 0"
    and "balloonVolume = fdiv (fadd nozzleLift balloonMass) (fsub airDensity gasDensity)"
    and "gasMass = fmul balloonVolume gasDensity"
  shows "liftingGasMass_f64 libm_pow nozzleLift balloonMass ambientTempC ambientPressMbar
           gasMolecularMass excessPressureCoefficient =
         bind_res (float_pow libm_pow (fdiv (fmul (Finite 6) balloonVolume) pi_f64)
                     (fdiv (Finite 1) (Finite 3)))
           (\<lambda>balloonDiameter. Inr (gasMass, balloonVolume, balloonDiameter))"
  using assms(1,4) unfolding assms(6) assms(5) assms(2) assms(3) liftingGasMass_f64_def
  by (simp add: Let_def del: fmul.simps fdiv.simps fadd.simps)

lemma fsub_positive_cases:
  assumes "flt g a" "fsub a g \<noteq> Finite 0"
  shows "flt (Finite 0) (fsub a g)"
proof (cases a; cases g)
  fix x y assume ag: "a = Finite x" "g = Finite y"
  then have "0 \<le> x - y" using assms(1) by simp
  from rnd_nonneg_cases [OF this] show ?thesis using assms(2) ag by (auto simp: fsub_def)
qed (use assms in \<open>auto simp: fsub_def\<close>)

lemma fdiv_positive_not_negative:
  assumes "flt (Finite 0) n" "flt (Finite 0) d"
  shows "\<not> flt (fdiv n d) (Finite 0)"
proof (cases n; cases d)
  fix x y assume nd: "n = Finite x" "d = Finite y"
  then have "0 \<le> x / y" using assms by simp
  from rnd_nonneg_cases [OF this] show ?thesis using nd by auto
qed (use assms in auto)




section \<open>Exceptions\<close>

subsection \<open>Doubles that are not zero\<close>

lemma is_double_nonzero_ge:
  assumes "is_double (Finite b)" "b \<noteq> 0"
  shows "2 powi (- 1074) \<le> \<bar>b\<bar>"
proof -
  define k where "k = round_half_even (b / ulp b)"
  have n: "b = ulp b * of_int k"
    using is_double_nearest [OF assms(1)] by (simp add: nearest_def k_def)
  have "k \<noteq> 0" using n assms(2) by auto
  then have "1 \<le> \<bar>k\<bar>" by simp
  then have k1: "1 \<le> \<bar>real_of_int k\<bar>" by (metis of_int_1_le_iff of_int_abs)
  have "- 1074 \<le> exponent b - 52" using exponent_ge [of b] by simp
  then have u: "(2::real) powi (- 1074) \<le> ulp b"
    unfolding ulp_def by (intro power_int_increasing) simp_all
  have "ulp b * 1 \<le> ulp b * \<bar>real_of_int k\<bar>" using k1 by (intro mult_left_mono) simp_all
  also have "\<dots> = \<bar>b\<bar>" by (subst (2) n) (simp add: abs_mult)
  finally show ?thesis using u by simp
qed

lemma fmul_100000_nonzero:
  assumes "is_double (Finite b)" "b \<noteq> 0"
  shows "fmul (Finite b) (Finite 100000) \<noteq> Finite 0"
proof -
  have lo: "2 powi (- 1074) \<le> \<bar>b\<bar>" by (rule is_double_nonzero_ge [OF assms])
  have "(2::real) powi (- 1058) = 2 powi (- 1074) * 2 powi 16"
    using power_int_add [of "2::real" "- 1074" 16] by simp
  also have "\<dots> \<le> \<bar>b\<bar> * 100000"
    using lo by (intro mult_mono) simp_all
  finally have le: "2 powi (- 1058) \<le> \<bar>b\<bar> * 100000" .
  have d: "is_double (Finite (2 powi (- 1058)))" by (rule is_double_two_powi) simp_all
  have "2 powi (- 1058) \<le> nearest (\<bar>b\<bar> * 100000)" by (rule nearest_ge_double [OF d le])
  then have pos: "0 < nearest (\<bar>b\<bar> * 100000)"
    using zero_less_power_int [of "2::real" "- 1058"] by linarith
  have "nearest (b * 100000) \<noteq> 0"
  proof (cases "0 \<le> b")
    case True
    with pos show ?thesis by simp
  next
    case False
    then have "\<bar>b\<bar> * 100000 = - (b * 100000)" by simp
    with pos have "0 < nearest (- (b * 100000))" by simp
    then show ?thesis by (simp add: nearest_minus)
  qed
  then show ?thesis by (simp add: rnd_Finite_iff)
qed

lemma fadd_zero_right: "is_double x \<Longrightarrow> fadd x (Finite 0) = x"
  by (cases x) simp_all

lemma fsub_zero_right: "is_double x \<Longrightarrow> fsub x (Finite 0) = x"
  by (cases x) (simp_all add: fsub_def)

text \<open>The blend is entered only with a band that is not empty, so its division never raises.\<close>

lemma balloonCD_f64_returns:
  assumes "is_double (transition_f64 self)" "is_double (ReBand_f64 self)"
  shows "\<exists>coefficient. balloonCD_f64 self reynoldsNumber = Inr coefficient"
proof (cases "ReBand_f64 self = Finite 0")
  case True
  then have "fadd (transition_f64 self) (ReBand_f64 self) = transition_f64 self"
    using fadd_zero_right [OF assms(1)] by simp
  then show ?thesis by (simp add: balloonCD_f64_def)
next
  case False
  have "fmul (ReBand_f64 self) (Finite 100000) \<noteq> Finite 0"
  proof (cases "ReBand_f64 self")
    case (Finite b)
    then show ?thesis using False assms(2) fmul_100000_nonzero [of b] by simp
  qed simp_all
  then show ?thesis by (simp add: balloonCD_f64_def)
qed

text \<open>With \<open>ventStart = 0\<close> the threshold is the floating altitude, and no altitude is in between.\<close>

lemma gasMassForFloat_f64_returns:
  assumes "is_double floatingAltitude"
  shows "\<exists>gasMass. gasMassForFloat_f64 currentAltitude floatingAltitude gasMassAtInflation
           gasMassAtFloatingAltitude ventStart = Inr gasMass"
proof (cases "ventStart = Finite 0")
  case True
  then show ?thesis using fsub_zero_right [OF assms] by (simp add: gasMassForFloat_f64_def)
next
  case False
  then show ?thesis by (simp add: gasMassForFloat_f64_def)
qed

lemma liftingGasMass_f64_ZeroDivisionError_iff:
  "liftingGasMass_f64 libm_pow nozzleLift balloonMass ambientTempC ambientPressMbar
       gasMolecularMass excessPressureCoefficient = Inl ZeroDivisionError
   \<longleftrightarrow> fmul R (fadd ambientTempC (literal 273.15)) = Finite 0
       \<or> fsub (fdiv (fmul (fmul ambientPressMbar (Finite 100)) airMolecularMass)
                 (fmul R (fadd ambientTempC (literal 273.15))))
              (fdiv (fmul (fmul (fmul excessPressureCoefficient ambientPressMbar) (Finite 100))
                       gasMolecularMass)
                 (fmul R (fadd ambientTempC (literal 273.15)))) = Finite 0"
proof (cases "fmul R (fadd ambientTempC (literal 273.15)) = Finite 0")
  case True
  then show ?thesis by (simp add: liftingGasMass_f64_def del: fmul.simps fadd.simps)
next
  case d: False
  show ?thesis
  proof (cases "fsub (fdiv (fmul (fmul ambientPressMbar (Finite 100)) airMolecularMass)
                 (fmul R (fadd ambientTempC (literal 273.15))))
              (fdiv (fmul (fmul (fmul excessPressureCoefficient ambientPressMbar) (Finite 100))
                       gasMolecularMass)
                 (fmul R (fadd ambientTempC (literal 273.15)))) = Finite 0")
    case True
    then show ?thesis using d
      by (simp add: liftingGasMass_f64_def del: fmul.simps fadd.simps fdiv.simps)
  next
    case False
    have "liftingGasMass_f64 libm_pow nozzleLift balloonMass ambientTempC ambientPressMbar
        gasMolecularMass excessPressureCoefficient \<noteq> Inl ZeroDivisionError"
      unfolding liftingGasMass_f64_unfold [OF d refl refl False refl refl]
      using float_pow_third_not_ZeroDivisionError
      by (auto simp: bind_res_def split: sum.splits)
    then show ?thesis using d False by simp
  qed
qed

lemma balloonDrag_f64_raises:
  assumes "is_double (transition_f64 self)" "is_double (ReBand_f64 self)"
  shows "(balloonDrag_f64 libm_pow self diameter ascentRate density viscosity
            = Inl ZeroDivisionError \<longleftrightarrow> viscosity = Finite 0)
       \<and> (balloonDrag_f64 libm_pow self diameter ascentRate density viscosity
            = Inl OverflowError \<longleftrightarrow>
          viscosity \<noteq> Finite 0
          \<and> (square libm_pow (fabs ascentRate) = Inl OverflowError
             \<or> square libm_pow diameter = Inl OverflowError))"
proof (cases "viscosity = Finite 0")
  case True
  then show ?thesis by (simp add: balloonDrag_f64_def)
next
  case False
  obtain c where c: "balloonCD_f64 self
      (fdiv (fmul (fmul density (fabs ascentRate)) diameter) viscosity) = Inr c"
    using balloonCD_f64_returns [OF assms] by blast
  have sq: "(\<exists>s. square libm_pow v = Inr s) \<or> square libm_pow v = Inl OverflowError" for v
  proof (cases "square libm_pow v")
    case (Inl e)
    then show ?thesis using square_not_ZeroDivisionError [of libm_pow v] by (cases e) simp_all
  qed simp
  from sq [of "fabs ascentRate"] sq [of diameter]
  consider (first) "square libm_pow (fabs ascentRate) = Inl OverflowError"
    | (second) s where "square libm_pow (fabs ascentRate) = Inr s"
        "square libm_pow diameter = Inl OverflowError"
    | (none) s t where "square libm_pow (fabs ascentRate) = Inr s"
        "square libm_pow diameter = Inr t"
    by blast
  then show ?thesis
  proof cases
    case first
    then show ?thesis using False c
      by (simp add: balloonDrag_f64_def del: fmul.simps fdiv.simps)
  next
    case second
    then show ?thesis using False c
      by (simp add: balloonDrag_f64_def del: fmul.simps fdiv.simps)
  next
    case none
    then show ?thesis using False c
      by (simp add: balloonDrag_f64_def del: fmul.simps fdiv.simps)
  qed
qed

lemma parachuteDrag_f64_raises:
  "parachuteDrag_f64 libm_pow self descentRate density \<noteq> Inl ZeroDivisionError
   \<and> (parachuteDrag_f64 libm_pow self descentRate density = Inl OverflowError
      \<longleftrightarrow> square libm_pow descentRate = Inl OverflowError)"
  using square_not_ZeroDivisionError [of libm_pow descentRate]
  by (cases "square libm_pow descentRate") (auto simp: parachuteDrag_f64_def)

text \<open>
  C5 (as amended). The methods check nothing and raise nothing themselves, and an input
  that is invalid physically gives a number (possibly an infinity or a NaN) unless the
  float arithmetic raises. \<open>gasMassForFloat\<close> never raises: with \<open>ventStart = 0\<close> its
  interpolation branch is never entered. \<open>balloonDrag\<close> raises \<open>ZeroDivisionError\<close>
  exactly when the viscosity is zero, and otherwise \<open>OverflowError\<close> exactly when one of
  its two squares overflows. \<open>parachuteDrag\<close> never raises \<open>ZeroDivisionError\<close> and raises
  \<open>OverflowError\<close> exactly when its square overflows. \<open>liftingGasMass\<close> raises
  \<open>ZeroDivisionError\<close> exactly when one of its divisors, computed in floating point, is
  zero: \<open>R * (ambientTempC + 273.15)\<close>, or the difference of the air density and the gas
  density.
\<close>

theorem raising_f64:
  assumes "is_double floatingAltitude"
    and "is_double (transition_f64 self)" and "is_double (ReBand_f64 self)"
  shows "(\<exists>gasMass. gasMassForFloat_f64 currentAltitude floatingAltitude gasMassAtInflation
            gasMassAtFloatingAltitude ventStart = Inr gasMass)
       \<and> (balloonDrag_f64 libm_pow self diameter ascentRate density viscosity
            = Inl ZeroDivisionError \<longleftrightarrow> viscosity = Finite 0)
       \<and> (balloonDrag_f64 libm_pow self diameter ascentRate density viscosity
            = Inl OverflowError \<longleftrightarrow>
          viscosity \<noteq> Finite 0
          \<and> (square libm_pow (fabs ascentRate) = Inl OverflowError
             \<or> square libm_pow diameter = Inl OverflowError))
       \<and> parachuteDrag_f64 libm_pow chute descentRate airDensity \<noteq> Inl ZeroDivisionError
       \<and> (parachuteDrag_f64 libm_pow chute descentRate airDensity = Inl OverflowError
            \<longleftrightarrow> square libm_pow descentRate = Inl OverflowError)
       \<and> (liftingGasMass_f64 libm_pow nozzleLift balloonMass ambientTempC ambientPressMbar
            gasMolecularMass excessPressureCoefficient = Inl ZeroDivisionError
          \<longleftrightarrow> fmul R (fadd ambientTempC (literal 273.15)) = Finite 0
            \<or> fsub (fdiv (fmul (fmul ambientPressMbar (Finite 100)) airMolecularMass)
                      (fmul R (fadd ambientTempC (literal 273.15))))
                   (fdiv (fmul (fmul (fmul excessPressureCoefficient ambientPressMbar)
                                  (Finite 100)) gasMolecularMass)
                      (fmul R (fadd ambientTempC (literal 273.15)))) = Finite 0)"
  using gasMassForFloat_f64_returns [OF assms(1)] balloonDrag_f64_raises [OF assms(2,3)]
    parachuteDrag_f64_raises liftingGasMass_f64_ZeroDivisionError_iff
  by blast

theorem raising_f64_witness:
  "is_double (Finite 30000)
   \<and> is_double (transition_f64 class_defaults_f64)
   \<and> is_double (ReBand_f64 class_defaults_f64)
   \<and> (\<exists>gasMass. gasMassForFloat_f64 (Finite 29999) (Finite 30000) (Finite 3) (Finite 2)
         (Finite 0) = Inr gasMass)
   \<and> balloonDrag_f64 exact_pow class_defaults_f64 (Finite 1) (Finite 1) (Finite 1) (Finite 0)
       = Inl ZeroDivisionError
   \<and> balloonDrag_f64 exact_pow class_defaults_f64 (Finite 1) (Finite (2 ^ 512)) (Finite 1)
       (Finite 1) = Inl OverflowError
   \<and> parachuteDrag_f64 exact_pow class_defaults_f64 (Finite (2 ^ 512)) (Finite 1)
       \<noteq> Inl ZeroDivisionError
   \<and> parachuteDrag_f64 exact_pow class_defaults_f64 (Finite (2 ^ 512)) (Finite 1)
       = Inl OverflowError
   \<and> liftingGasMass_f64 exact_pow (Finite 1) (Finite (1 / 2)) (fneg (literal 273.15))
       (Finite 1000) (Finite (1 / 256)) (Finite 1) = Inl ZeroDivisionError"
proof -
  have w1: "literal (5463 / 20) = Finite (2402652809016115 / 8796093022208)"
    using rnd_eqI [where e = 8 and m = 4805305618032230 and x = "5463 / 20"] by (simp add: literal_def)
  have w2: "literal (831447 / 100000) = Finite (292539406201431 / 35184372088832)"
    using rnd_eqI [where e = 3 and m = 4680630499222896 and x = "831447 / 100000"] by (simp add: literal_def)
  have z: "fmul R (fadd (fneg (literal 273.15)) (literal 273.15)) = Finite 0"
    using w1 w2 by (simp add: R_def)
  have o: "square exact_pow (Finite (2 ^ 512)) = Inl OverflowError"
    using rnd_overflow_two_1024 by (simp add: square_Finite exact_pow_two)
  have d: "is_double (Finite 30000)" "is_double (transition_f64 class_defaults_f64)"
    "is_double (ReBand_f64 class_defaults_f64)"
    by (simp_all add: class_defaults_f64_def)
  note th = raising_f64 [OF d, where libm_pow = exact_pow and diameter = "Finite 1"
      and density = "Finite 1" and chute = class_defaults_f64
      and descentRate = "Finite (2 ^ 512)" and airDensity = "Finite 1"
      and currentAltitude = "Finite 29999" and gasMassAtInflation = "Finite 3"
      and gasMassAtFloatingAltitude = "Finite 2" and ventStart = "Finite 0"
      and nozzleLift = "Finite 1" and balloonMass = "Finite (1 / 2)"
      and ambientTempC = "fneg (literal 273.15)" and ambientPressMbar = "Finite 1000"
      and gasMolecularMass = "Finite (1 / 256)" and excessPressureCoefficient = "Finite 1"]
  have a: "balloonDrag_f64 exact_pow class_defaults_f64 (Finite 1) (Finite 1) (Finite 1)
      (Finite 0) = Inl ZeroDivisionError"
    using th [where ascentRate = "Finite 1" and viscosity = "Finite 0"] by blast
  have b: "balloonDrag_f64 exact_pow class_defaults_f64 (Finite 1) (Finite (2 ^ 512)) (Finite 1)
      (Finite 1) = Inl OverflowError"
    using th [where ascentRate = "Finite (2 ^ 512)" and viscosity = "Finite 1"] o by simp
  have c: "parachuteDrag_f64 exact_pow class_defaults_f64 (Finite (2 ^ 512)) (Finite 1)
      \<noteq> Inl ZeroDivisionError"
    "parachuteDrag_f64 exact_pow class_defaults_f64 (Finite (2 ^ 512)) (Finite 1)
      = Inl OverflowError"
    using th [where ascentRate = "Finite 1" and viscosity = "Finite 0"] o by blast+
  have e: "liftingGasMass_f64 exact_pow (Finite 1) (Finite (1 / 2)) (fneg (literal 273.15))
      (Finite 1000) (Finite (1 / 256)) (Finite 1) = Inl ZeroDivisionError"
    using th [where ascentRate = "Finite 1" and viscosity = "Finite 0"] z by blast
  have f: "\<exists>gasMass. gasMassForFloat_f64 (Finite 29999) (Finite 30000) (Finite 3) (Finite 2)
      (Finite 0) = Inr gasMass"
    using th [where ascentRate = "Finite 1" and viscosity = "Finite 0"] by blast
  show ?thesis using d a b c e f by blast
qed

text \<open>
  Two of the inputs that the claim names raise: a viscosity of zero, and a lifting gas
  with the molecular mass of air and no excess pressure, whose computed density is the
  computed air density.
\<close>

theorem raising_f64_counterexample:
  "balloonDrag_f64 exact_pow class_defaults_f64 (Finite 1) (Finite 1) (Finite 1) (Finite 0)
     = Inl ZeroDivisionError
   \<and> fdiv (fmul (fmul (fmul (Finite 1) (Finite 1000)) (Finite 100)) airMolecularMass)
       (fmul R (fadd (Finite 15) (literal 273.15))) = Finite (5443837306614481 / 4503599627370496)
   \<and> fdiv (fmul (fmul (Finite 1000) (Finite 100)) airMolecularMass)
       (fmul R (fadd (Finite 15) (literal 273.15))) = Finite (5443837306614481 / 4503599627370496)
   \<and> liftingGasMass_f64 exact_pow (Finite 1) (Finite (1 / 2)) (Finite 15) (Finite 1000)
       airMolecularMass (Finite 1) = Inl ZeroDivisionError"
proof -
  have c1: "literal (5463 / 20) = Finite (2402652809016115 / 8796093022208)"
    using rnd_eqI [where e = 8 and m = 4805305618032230 and x = "5463 / 20"] by (simp add: literal_def)
  have c2: "literal (831447 / 100000) = Finite (292539406201431 / 35184372088832)"
    using rnd_eqI [where e = 3 and m = 4680630499222896 and x = "831447 / 100000"] by (simp add: literal_def)
  have c3: "literal (181 / 6250) = Finite (2086787923338393 / 72057594037927936)"
    using rnd_eqI [where e = "- 6" and m = 8347151693353572 and x = "181 / 6250"] by (simp add: literal_def)
  have c4: "fadd (Finite (15)) (Finite (2402652809016115 / 8796093022208)) = Finite (2534594204349235 / 8796093022208)"
    using rnd_eqI [where e = 8 and m = 5069188408698470 and x = "2534594204349235 / 8796093022208"] by (simp)
  have c5: "fmul (Finite (292539406201431 / 35184372088832)) (Finite (2534594204349235 / 8796093022208)) = Finite (329278241784931 / 137438953472)"
    using rnd_eqI [where e = 11 and m = 5268451868558896 and x = "741468683501913668630680755285 / 309485009821345068724781056"] by (simp)
  have c6: "fmul (Finite (1)) (Finite (1000)) = Finite (1000)"
    using rnd_eqI [where e = 9 and m = 8796093022208000 and x = "1000"] by (simp)
  have c7: "fmul (Finite (1000)) (Finite (100)) = Finite (100000)"
    using rnd_eqI [where e = 16 and m = 6871947673600000 and x = "100000"] by (simp)
  have c8: "fmul (Finite (100000)) (Finite (2086787923338393 / 72057594037927936)) = Finite (2896)"
    using rnd_eqI [where e = 11 and m = 6368371348078592 and x = "6521212260432478125 / 2251799813685248"] by (simp)
  have c9: "fdiv (Finite (2896)) (Finite (329278241784931 / 137438953472)) = Finite (5443837306614481 / 4503599627370496)"
    using rnd_eqI [where e = 0 and m = 5443837306614481 and x = "398023209254912 / 329278241784931"] by (simp)
  have c10: "fmul (Finite (1000)) (Finite (100)) = Finite (100000)"
    using rnd_eqI [where e = 16 and m = 6871947673600000 and x = "100000"] by (simp)
  have c11: "fmul (Finite (100000)) (Finite (2086787923338393 / 72057594037927936)) = Finite (2896)"
    using rnd_eqI [where e = 11 and m = 6368371348078592 and x = "6521212260432478125 / 2251799813685248"] by (simp)
  have c12: "fdiv (Finite (2896)) (Finite (329278241784931 / 137438953472)) = Finite (5443837306614481 / 4503599627370496)"
    using rnd_eqI [where e = 0 and m = 5443837306614481 and x = "398023209254912 / 329278241784931"] by (simp)
  have c13: "fsub (Finite (5443837306614481 / 4503599627370496)) (Finite (5443837306614481 / 4503599627370496)) = Finite 0"
    by (simp add: fsub_def)
  have D: "fmul R (fadd (Finite 15) (literal 273.15)) = Finite (329278241784931 / 137438953472)"
    using c1 c2 c4 c5 by (simp add: R_def del: fmul.simps fadd.simps)
  have g: "fdiv (fmul (fmul (fmul (Finite 1) (Finite 1000)) (Finite 100)) airMolecularMass)
       (fmul R (fadd (Finite 15) (literal 273.15))) = Finite (5443837306614481 / 4503599627370496)"
    unfolding D using c3 c6 c7 c8 c9
    by (simp add: airMolecularMass_def del: fmul.simps fdiv.simps)
  have a: "fdiv (fmul (fmul (Finite 1000) (Finite 100)) airMolecularMass)
       (fmul R (fadd (Finite 15) (literal 273.15))) = Finite (5443837306614481 / 4503599627370496)"
    unfolding D using c3 c10 c11 c12
    by (simp add: airMolecularMass_def del: fmul.simps fdiv.simps)
  have z: "fsub (Finite (5443837306614481 / 4503599627370496)) (Finite (5443837306614481 / 4503599627370496)) = Finite 0"
    by (simp add: fsub_def)
  have l: "liftingGasMass_f64 exact_pow (Finite 1) (Finite (1 / 2)) (Finite 15) (Finite 1000)
       airMolecularMass (Finite 1) = Inl ZeroDivisionError"
    unfolding liftingGasMass_f64_ZeroDivisionError_iff g a z by simp
  have b: "balloonDrag_f64 exact_pow class_defaults_f64 (Finite 1) (Finite 1) (Finite 1)
      (Finite 0) = Inl ZeroDivisionError"
    by (simp add: balloonDrag_f64_def)
  show ?thesis using b g a l by blast
qed

section \<open>The real readings on binary64\<close>

text \<open>
  The statements made above over the reals, as far as they can be made of floats, hold
  of the float methods as well.
\<close>

text \<open>
  \<open>nozzleLiftForFloat\<close> on floats has the same two regions; the threshold is the float
  difference \<open>floatingAltitude - ventStart\<close>.
\<close>

lemma nozzleLiftForFloat_f64_two_regions:
  "(flt currentAltitude (fsub floatingAltitude ventStart) \<longrightarrow>
      nozzleLiftForFloat_f64 nozzleLiftAtInflation airDensity gasDensity balloonVolume
        balloonMass currentAltitude floatingAltitude ventStart = nozzleLiftAtInflation)
   \<and> (\<not> flt currentAltitude (fsub floatingAltitude ventStart) \<longrightarrow>
      nozzleLiftForFloat_f64 nozzleLiftAtInflation airDensity gasDensity balloonVolume
        balloonMass currentAltitude floatingAltitude ventStart =
      fsub (fmul (fsub airDensity gasDensity) balloonVolume) balloonMass)
   \<and> nozzleLiftForFloat_f64 nozzleLiftAtInflation airDensity gasDensity balloonVolume
        balloonMass (fsub floatingAltitude ventStart) floatingAltitude ventStart =
      fsub (fmul (fsub airDensity gasDensity) balloonVolume) balloonMass
   \<and> (fle (Finite 0) ventStart \<and> is_double floatingAltitude
        \<and> fle floatingAltitude currentAltitude \<longrightarrow>
      nozzleLiftForFloat_f64 nozzleLiftAtInflation airDensity gasDensity balloonVolume
        balloonMass currentAltitude floatingAltitude ventStart =
      fsub (fmul (fsub airDensity gasDensity) balloonVolume) balloonMass)"
proof (intro conjI impI)
  assume a: "fle (Finite 0) ventStart \<and> is_double floatingAltitude
      \<and> fle floatingAltitude currentAltitude"
  have "\<not> flt currentAltitude (fsub floatingAltitude ventStart)"
  proof (cases "ventStart = Finite 0")
    case True
    then show ?thesis using a fsub_zero_right [of floatingAltitude] fle_not_flt by simp
  next
    case False
    then have "flt (Finite 0) ventStart" using a by (auto simp: fle_zero_nonneg)
    then show ?thesis using a by (intro threshold_le_floatingAltitude) simp_all
  qed
  then show "nozzleLiftForFloat_f64 nozzleLiftAtInflation airDensity gasDensity balloonVolume
        balloonMass currentAltitude floatingAltitude ventStart =
      fsub (fmul (fsub airDensity gasDensity) balloonVolume) balloonMass"
    by (simp add: nozzleLiftForFloat_f64_def)
qed (simp_all add: nozzleLiftForFloat_f64_def)

text \<open>
  \<open>abs\<close> is exact on floats, so \<open>balloonDrag\<close> on floats does not see the sign of the
  ascent rate, whether it returns or raises.
\<close>

lemma fabs_fneg [simp]: "fabs (fneg v) = fabs v"
  by (cases v) simp_all

lemma balloonDrag_f64_sign_symmetric:
  "balloonDrag_f64 libm_pow self diameter (fneg ascentRate) density viscosity =
   balloonDrag_f64 libm_pow self diameter ascentRate density viscosity"
  by (simp add: balloonDrag_f64_def)

text \<open>
  At the two thresholds that the float method computes, \<open>transition * 1e5\<close> and
  \<open>(transition + ReBand) * 1e5\<close>, the coefficient is \<open>highCD\<close> and \<open>lowCD\<close> exactly,
  provided that the computed band is not empty (the first threshold is below the
  second). A band below the spacing of the floats at the threshold is empty, and then
  the coefficient at the threshold is \<open>lowCD\<close>.
\<close>

lemma flt_asym: "flt x y \<Longrightarrow> \<not> flt y x"
  by (cases x; cases y) simp_all

lemma balloonCD_f64_lower_edge:
  assumes "is_double (transition_f64 self)"
    and "is_double (ReBand_f64 self)"
    and "fmul (transition_f64 self) (Finite 100000) = Finite lower"
    and "flt (Finite lower)
           (fmul (fadd (transition_f64 self) (ReBand_f64 self)) (Finite 100000))"
    and "is_double (highCD_f64 self)"
    and "fsub (highCD_f64 self) (lowCD_f64 self) = Finite difference"
  shows "balloonCD_f64 self (Finite lower) = Inr (highCD_f64 self)"
proof -
  have band: "fdiv (Finite 0) (fmul (ReBand_f64 self) (Finite 100000)) = Finite 0
      \<and> fmul (ReBand_f64 self) (Finite 100000) \<noteq> Finite 0"
  proof (cases "ReBand_f64 self")
    case (Finite b)
    have "b \<noteq> 0"
    proof
      assume "b = 0"
      then have "fadd (transition_f64 self) (ReBand_f64 self) = transition_f64 self"
        using Finite fadd_zero_right [OF assms(1)] by simp
      with assms(3,4) show False by simp
    qed
    then have nz: "fmul (Finite b) (Finite 100000) \<noteq> Finite 0"
      using assms(2) Finite by (intro fmul_100000_nonzero) simp_all
    then show ?thesis unfolding Finite
      by (cases "fmul (Finite b) (Finite 100000)") simp_all
  next
    case NaN
    then have "fadd (transition_f64 self) (ReBand_f64 self) = NaN"
      by (cases "transition_f64 self") simp_all
    with assms(4) show ?thesis by simp
  qed simp_all
  have h: "fsub (highCD_f64 self) (Finite 0) = highCD_f64 self"
    by (rule fsub_zero_right [OF assms(5)])
  have z: "fsub (Finite lower) (Finite lower) = Finite 0" by (simp add: fsub_def)
  have m: "fmul (Finite difference) (Finite 0) = Finite 0" by simp
  show ?thesis
    using assms(3,4,6) band h z m
    by (simp add: balloonCD_f64_def del: fmul.simps fdiv.simps)
qed

lemma balloonCD_f64_upper_edge:
  assumes "flt (fmul (transition_f64 self) (Finite 100000))
             (fmul (fadd (transition_f64 self) (ReBand_f64 self)) (Finite 100000))"
  shows "balloonCD_f64 self (fmul (fadd (transition_f64 self) (ReBand_f64 self)) (Finite 100000))
         = Inr (lowCD_f64 self)"
  using flt_asym [OF assms] by (simp add: balloonCD_f64_def del: fmul.simps)

lemma balloonCD_f64_empty_band:
  assumes "\<not> flt (fmul (transition_f64 self) (Finite 100000))
               (fmul (fadd (transition_f64 self) (ReBand_f64 self)) (Finite 100000))"
  shows "balloonCD_f64 self (fmul (transition_f64 self) (Finite 100000)) = Inr (lowCD_f64 self)"
  using assms by (simp add: balloonCD_f64_def del: fmul.simps)

end
